theory Spec2Isabelle
  imports Complex_Main "HOL-Library.Sublist" "HOL-Library.Multiset"
begin

section \<open>Common Python notions\<close>

text \<open>
  Both scripts are plain Python. Strings are modelled as \<^typ>\<open>string\<close> (byte
  strings: the survey texts the scripts match against are ASCII phrases), a \<open>dict\<close> as
  an association list in insertion order with distinct keys, and an exception as a value
  of \<open>py_error\<close> on the left of a sum.
\<close>

datatype py_error = ValueError | KeyError | IndexError | StopIteration | OtherError

text \<open>\<open>str.lower()\<close> on ASCII letters; every other byte is left as it is.\<close>

definition lower_char :: "char \<Rightarrow> char" where
  "lower_char c =
     (let n = (of_char c :: nat) in if 65 \<le> n \<and> n \<le> 90 then char_of (n + 32) else c)"

definition lower :: "string \<Rightarrow> string" where
  "lower s = map lower_char s"

text \<open>\<open>pat in s\<close> for two strings is the contiguous-substring test \<^const>\<open>sublist\<close>.\<close>

abbreviation str_in :: "string \<Rightarrow> string \<Rightarrow> bool" where
  "str_in pat s \<equiv> sublist pat s"

text \<open>\<open>d[k] = v\<close>: an existing key keeps its position, a new key is appended.\<close>

fun dict_set :: "('k \<times> 'v) list \<Rightarrow> 'k \<Rightarrow> 'v \<Rightarrow> ('k \<times> 'v) list" where
  "dict_set [] k v = [(k, v)]"
| "dict_set ((k', v') # d) k v = (if k' = k then (k, v) # d else (k', v') # dict_set d k v)"

text \<open>\<open>d.get(k, default)\<close>.\<close>

definition dict_get :: "('k \<times> 'v) list \<Rightarrow> 'k \<Rightarrow> 'v \<Rightarrow> 'v" where
  "dict_get d k dflt = (case map_of d k of None \<Rightarrow> dflt | Some v \<Rightarrow> v)"

abbreviation dict_keys :: "('k \<times> 'v) list \<Rightarrow> 'k list" where
  "dict_keys d \<equiv> map fst d"

abbreviation dict_values :: "('k \<times> 'v) list \<Rightarrow> 'v list" where
  "dict_values d \<equiv> map snd d"

section \<open>needfinding\_results.py\<close>

subsection \<open>Question classifier\<close>

record question_data =
  qid :: string
  qtext :: string
  qanswers :: "string list"

datatype question_type = Skip | Free_text | Select_all | Multiple_choice

definition free_text_phrases :: "string list" where
  "free_text_phrases =
     [''briefly describe'',
      ''if you selected \"other\"'',
      ''if you could magically conjure'']"

definition identify_question_type :: "question_data \<Rightarrow> question_type" where
  "identify_question_type question_data =
     (let question_text = lower (qtext question_data) in
      if str_in ''consent'' question_text then Skip
      else if list_ex (\<lambda>phrase. str_in phrase question_text) free_text_phrases then Free_text
      else if str_in ''select all that apply'' question_text then Select_all
      else Multiple_choice)"

subsection \<open>Aggregation of answers\<close>

text \<open>
  \<open>Counter(xs)\<close> counts the elements of \<open>xs\<close>; its keys are in order of first
  occurrence.
\<close>

definition counter_add :: "(string \<times> nat) list \<Rightarrow> string \<Rightarrow> (string \<times> nat) list" where
  "counter_add c x = dict_set c x (dict_get c x 0 + 1)"

definition Counter :: "string list \<Rightarrow> (string \<times> nat) list" where
  "Counter xs = fold (\<lambda>x c. counter_add c x) xs []"

text \<open>\<open>s.split(';')\<close> and \<open>s.strip()\<close> (ASCII white space).\<close>

fun split_on :: "char \<Rightarrow> string \<Rightarrow> string list" where
  "split_on sep [] = [[]]"
| "split_on sep (c # cs) =
     (if c = sep then [] # split_on sep cs
      else (case split_on sep cs of [] \<Rightarrow> [[c]] | w # ws \<Rightarrow> (c # w) # ws))"

definition is_space :: "char \<Rightarrow> bool" where
  "is_space c = (let n = (of_char c :: nat) in (9 \<le> n \<and> n \<le> 13) \<or> (28 \<le> n \<and> n \<le> 32))"

definition strip :: "string \<Rightarrow> string" where
  "strip s = rev (dropWhile is_space (rev (dropWhile is_space s)))"

definition process_select_all_question :: "string list \<Rightarrow> (string \<times> nat) list" where
  "process_select_all_question answers =
     Counter (concat (map (\<lambda>answer. map strip (split_on CHR '';'' answer))
       (filter (\<lambda>answer. answer \<noteq> [] \<and> lower answer \<notin> set [''n/a'', ''na'', ''none''])
          answers)))"

definition process_multiple_choice_question :: "string list \<Rightarrow> (string \<times> nat) list" where
  "process_multiple_choice_question answers =
     Counter (filter (\<lambda>ans. ans \<noteq> [] \<and> lower ans \<notin> set [''n/a'', ''na'']) answers)"

subsection \<open>Chart ordering\<close>

definition times_order :: "string list" where
  "times_order = [''0 times'', ''1-2 times'', ''3-5 times'', ''6-10 times'', ''11+ times'']"

definition trips_order :: "string list" where
  "trips_order = [''0 trips'', ''1-2 trips'', ''3-5 trips'', ''6-10 trips'', ''11+ trips'']"

definition tools_order :: "string list" where
  "tools_order =
     [''I use completely different tools/services/processes for different trips'',
      ''I mostly use different tools/services/processes for different trips'',
      ''Not really sure/It depends'',
      ''I mostly use the same tools/services/processes for both kinds of trips'',
      ''I use almost exactly the same tools/services/processes for both kinds of trips'']"

definition get_custom_order :: "string \<Rightarrow> string list option" where
  "get_custom_order question_text =
     (let question_lower = lower question_text in
      if str_in ''how many trips'' question_lower \<or> str_in ''how many times'' question_lower
      then (if str_in ''how many times'' question_lower
               \<or> str_in ''away from your home city'' question_lower
            then Some times_order
            else Some trips_order)
      else if str_in ''same basic tools/processes'' question_lower then Some tools_order
      else None)"

text \<open>
  \<open>sorted(items, key=count, reverse=True)\<close>: Python's sort is stable, also with
  \<open>reverse=True\<close> (the list is reversed, sorted and reversed again).
\<close>

definition sorted_by_count_desc :: "(string \<times> nat) list \<Rightarrow> (string \<times> nat) list" where
  "sorted_by_count_desc d = rev (sort_key snd (rev d))"

definition order_data_for_chart ::
  "(string \<times> nat) list \<Rightarrow> string \<Rightarrow> bool \<Rightarrow> (string \<times> nat) list" where
  "order_data_for_chart data question_text include_zeros =
     (case get_custom_order question_text of
        Some custom_order \<Rightarrow>
          (let question_lower = lower question_text in
           if include_zeros
              \<and> (str_in ''how many trips'' question_lower
                   \<or> str_in ''how many times'' question_lower)
           then fold (\<lambda>item ordered_data. dict_set ordered_data item (dict_get data item 0))
                  custom_order []
           else
             (let ordered_data =
                    fold (\<lambda>item od. case map_of data item of
                                        Some cnt \<Rightarrow> dict_set od item cnt
                                      | None \<Rightarrow> od) custom_order []
              in fold (\<lambda>(item, cnt) od.
                         if item \<notin> set (dict_keys od) then dict_set od item cnt else od)
                   data ordered_data))
      | None \<Rightarrow> sorted_by_count_desc data)"

text \<open>
  Of a chart only its slices or bars matter here: the labels with their values, in the
  order in which they are drawn. The drawing itself, done by matplotlib, is outside the
  model.
\<close>

definition create_bar_chart :: "(string \<times> nat) list \<Rightarrow> string \<Rightarrow> (string \<times> nat) list" where
  "create_bar_chart data question_text = order_data_for_chart data question_text True"

definition create_pie_chart :: "(string \<times> nat) list \<Rightarrow> string \<Rightarrow> (string \<times> nat) list" where
  "create_pie_chart data question_text =
     (let sorted_data = order_data_for_chart data question_text False in
      if length sorted_data > 8 then
        (let top_items = take 7 sorted_data;
             other_count = sum_list (drop 7 (dict_values sorted_data))
         in if other_count > 0 then dict_set top_items ''Other Categories'' other_count
            else top_items)
      else sorted_data)"

subsection \<open>The survey analysis\<close>

record question_result =
  r_question :: string
  r_type :: question_type
  statistics :: "(string \<times> nat) list"
  total_responses :: nat

datatype chart = Bar_chart "(string \<times> nat) list" | Pie_chart "(string \<times> nat) list"

definition count_total_responses :: "string list \<Rightarrow> nat" where
  "count_total_responses answers =
     length (filter (\<lambda>a. a \<noteq> [] \<and> lower a \<notin> set [''n/a'', ''na'', ''none'']) answers)"

text \<open>
  One round of the loop of \<open>analyze_survey\<close>: the entry written to \<open>results\<close> and the
  figures appended, or nothing for a skipped question and for an empty counter.
\<close>

definition analyze_question :: "question_data \<Rightarrow> (question_result \<times> chart list) option" where
  "analyze_question question_data =
     (let question_type = identify_question_type question_data in
      if question_type = Skip \<or> question_type = Free_text then None
      else
        (let question_text = qtext question_data;
             counter = (if question_type = Select_all
                        then process_select_all_question (qanswers question_data)
                        else process_multiple_choice_question (qanswers question_data))
         in if counter \<noteq> [] then
              Some (\<lparr>r_question = question_text, r_type = question_type, statistics = counter,
                      total_responses = count_total_responses (qanswers question_data)\<rparr>,
                    Bar_chart (create_bar_chart counter question_text)
                    # (if question_type = Multiple_choice \<and> length counter \<le> 10
                       then [Pie_chart (create_pie_chart counter question_text)] else []))
            else None))"

definition analyze_survey ::
  "question_data list \<Rightarrow> py_error + ((string \<times> question_result) list \<times> chart list)" where
  "analyze_survey data =
     (if data = [] then Inl IndexError
      else Inr (fold (\<lambda>question_data (results, figures).
                        case analyze_question question_data of
                          None \<Rightarrow> (results, figures)
                        | Some (r, figs) \<Rightarrow>
                            (dict_set results (qid question_data) r, figures @ figs))
                  data ([], [])))"

section \<open>prototype\_analysis.py\<close>

subsection \<open>Floating-point values\<close>

text \<open>
  A Python \<open>float\<close> is an IEEE double: a number or NaN. The numbers are taken as the
  reals they denote and NaN is kept apart, because every comparison with it is false.
  Values that the scripts receive from numpy and scipy are taken as the library returns
  them; an arithmetic operation of the script itself rounds its exact result to the
  nearest double, ties to even (\<open>fl64\<close>). Infinities are left out: the products formed
  here are at most three times a p-value.
\<close>

datatype pyfloat = Fin real | NaN

fun float_lt :: "pyfloat \<Rightarrow> pyfloat \<Rightarrow> bool" where
  "float_lt (Fin a) (Fin b) = (a < b)"
| "float_lt _ _ = False"

fun float_le :: "pyfloat \<Rightarrow> pyfloat \<Rightarrow> bool" where
  "float_le (Fin a) (Fin b) = (a \<le> b)"
| "float_le _ _ = False"

text \<open>
  Rounding to the nearest double, ties to even: the spacing of the doubles around \<open>x\<close>
  is \<open>2\<close> to the power \<open>ulp_exponent x\<close>, which is \<open>52\<close> below the binary exponent of
  \<open>x\<close> and never below that of the subnormal numbers.
\<close>

definition round_half_even :: "real \<Rightarrow> int" where
  "round_half_even x =
     (let f = \<lfloor>x\<rfloor>; d = x - of_int f in
      if d < 1 / 2 then f else if 1 / 2 < d then f + 1 else if even f then f else f + 1)"

definition ulp_exponent :: "real \<Rightarrow> int" where
  "ulp_exponent x = max \<lfloor>log 2 \<bar>x\<bar>\<rfloor> (- 1022) - 52"

definition fl64 :: "real \<Rightarrow> real" where
  "fl64 x =
     (if x = 0 then 0
      else of_int (round_half_even (x / 2 powr of_int (ulp_exponent x)))
             * 2 powr of_int (ulp_exponent x))"

text \<open>The product \<open>a * b\<close> of two floats.\<close>

fun float_mul :: "pyfloat \<Rightarrow> pyfloat \<Rightarrow> pyfloat" where
  "float_mul (Fin a) (Fin b) = Fin (fl64 (a * b))"
| "float_mul _ _ = NaN"

text \<open>The builtin \<open>min(a, b)\<close> returns \<open>b\<close> only when \<open>b < a\<close>.\<close>

definition py_min :: "pyfloat \<Rightarrow> pyfloat \<Rightarrow> pyfloat" where
  "py_min a b = (if float_lt b a then b else a)"

subsection \<open>The data frame and the Likert data\<close>

record df_row =
  question_id :: string
  question_text :: string
  answer :: string
  respondent_id :: nat

definition load_and_prepare_data :: "question_data list \<Rightarrow> df_row list" where
  "load_and_prepare_data data =
     concat (map (\<lambda>q. map (\<lambda>(i, a). \<lparr>question_id = qid q, question_text = qtext q,
                                       answer = a, respondent_id = i\<rparr>)
                          (enumerate 0 (qanswers q))) data)"

definition likert_questions :: "(string \<times> (string \<times> string) list) list" where
  "likert_questions =
     [(''A'', [(''1763429742172'', ''Understand Tasks''),
               (''1763429933708'', ''Understand How to Use''),
               (''1763429972190'', ''Easy to Use''),
               (''1763430192770'', ''Has Features Needed''),
               (''1763430096428'', ''Superior to Existing Tools'')]),
      (''B'', [(''1763431473322'', ''Understand Tasks''),
               (''1763431486831'', ''Understand How to Use''),
               (''1763431509699'', ''Easy to Use''),
               (''1763431525649'', ''Has Features Needed''),
               (''1763431567705'', ''Superior to Existing Tools'')]),
      (''C'', [(''1763433215212'', ''Understand Tasks''),
               (''1763433230680'', ''Understand How to Use''),
               (''1763433260707'', ''Easy to Use''),
               (''1763433293713'', ''Has Features Needed''),
               (''1763433312274'', ''Superior to Existing Tools'')])]"

text \<open>\<open>df[df['question_id'] == q_id]['answer'].values\<close>\<close>

definition answers_of :: "df_row list \<Rightarrow> string \<Rightarrow> string list" where
  "answers_of df q_id = map answer (filter (\<lambda>r. question_id r = q_id) df)"

text \<open>
  \<open>a.isdigit()\<close> and \<open>int(a)\<close> on ASCII decimal digits. The other Unicode digits
  that \<open>isdigit\<close> accepts are outside the model.
\<close>

definition is_digit_char :: "char \<Rightarrow> bool" where
  "is_digit_char c = (let n = (of_char c :: nat) in 48 \<le> n \<and> n \<le> 57)"

definition isdigit :: "string \<Rightarrow> bool" where
  "isdigit a = (a \<noteq> [] \<and> list_all is_digit_char a)"

definition int_of_digits :: "string \<Rightarrow> int" where
  "int_of_digits a = fold (\<lambda>c n. 10 * n + (int (of_char c) - 48)) a 0"

definition numeric_answers :: "string list \<Rightarrow> int list" where
  "numeric_answers answers = map int_of_digits (filter isdigit answers)"

type_synonym likert_data = "(string \<times> (string \<times> int list) list) list"

definition get_likert_data ::
  "df_row list \<Rightarrow> (string \<times> (string \<times> string) list) list \<Rightarrow> likert_data" where
  "get_likert_data df lq =
     fold (\<lambda>(prototype, questions) likert_data.
             dict_set likert_data prototype
               (fold (\<lambda>(q_id, q_label) prototype_data.
                        dict_set prototype_data q_label (numeric_answers (answers_of df q_id)))
                  questions []))
       lq []"

text \<open>\<open>d[k]\<close> raises \<open>KeyError\<close> for a missing key.\<close>

definition dict_lookup :: "('k \<times> 'v) list \<Rightarrow> 'k \<Rightarrow> py_error + 'v" where
  "dict_lookup d k = (case map_of d k of None \<Rightarrow> Inl KeyError | Some v \<Rightarrow> Inr v)"

definition likert_values :: "likert_data \<Rightarrow> string \<Rightarrow> string \<Rightarrow> py_error + int list" where
  "likert_values likert_data prototype question =
     (case dict_lookup likert_data prototype of
        Inl e \<Rightarrow> Inl e
      | Inr questions \<Rightarrow> dict_lookup questions question)"

subsection \<open>Descriptive statistics\<close>

text \<open>
  The numpy reductions on a list of integers. \<open>np.mean\<close> and \<open>np.median\<close> of an empty
  list are NaN, \<open>np.min\<close> and \<open>np.max\<close> of an empty list raise \<open>ValueError\<close>.
  \<open>np.std(values, ddof=1)\<close> divides the sum of the squared deviations from the mean by
  \<open>max(n - 1, 0)\<close> and takes the root; for \<open>n \<le> 1\<close> that sum is \<open>0\<close> and the
  quotient \<open>0 / 0\<close> is NaN.
\<close>

definition np_mean :: "int list \<Rightarrow> pyfloat" where
  "np_mean values =
     (if values = [] then NaN else Fin (real_of_int (sum_list values) / real (length values)))"

definition np_median :: "int list \<Rightarrow> pyfloat" where
  "np_median values =
     (let s = sort values; k = length values div 2 in
      if values = [] then NaN
      else if odd (length values) then Fin (real_of_int (s ! k))
      else Fin ((real_of_int (s ! (k - 1)) + real_of_int (s ! k)) / 2))"

definition sum_sq_dev :: "int list \<Rightarrow> real" where
  "sum_sq_dev values =
     (let m = real_of_int (sum_list values) / real (length values) in
      sum_list (map (\<lambda>x. (real_of_int x - m) * (real_of_int x - m)) values))"

definition np_std_ddof1 :: "int list \<Rightarrow> pyfloat" where
  "np_std_ddof1 values =
     (if length values \<le> 1 then NaN
      else Fin (sqrt (sum_sq_dev values / real (length values - 1))))"

definition np_min :: "int list \<Rightarrow> py_error + int" where
  "np_min values = (case values of [] \<Rightarrow> Inl ValueError | x # xs \<Rightarrow> Inr (fold min xs x))"

definition np_max :: "int list \<Rightarrow> py_error + int" where
  "np_max values = (case values of [] \<Rightarrow> Inl ValueError | x # xs \<Rightarrow> Inr (fold max xs x))"

record descriptive_stats =
  st_mean :: pyfloat
  st_median :: pyfloat
  st_std :: pyfloat
  st_min :: int
  st_max :: int
  st_n :: nat

definition question_stats :: "int list \<Rightarrow> py_error + descriptive_stats" where
  "question_stats values =
     (case np_min values of
        Inl e \<Rightarrow> Inl e
      | Inr lo \<Rightarrow>
          (case np_max values of
             Inl e \<Rightarrow> Inl e
           | Inr hi \<Rightarrow>
               Inr \<lparr>st_mean = np_mean values, st_median = np_median values,
                    st_std = np_std_ddof1 values, st_min = lo, st_max = hi,
                    st_n = length values\<rparr>))"

text \<open>A \<open>for\<close> loop that fills a fresh dictionary and stops at the first exception.\<close>

fun fill_dict ::
  "('k \<times> 'a) list \<Rightarrow> ('a \<Rightarrow> py_error + 'b) \<Rightarrow> ('k \<times> 'b) list \<Rightarrow> py_error + ('k \<times> 'b) list"
  where
  "fill_dict [] f acc = Inr acc"
| "fill_dict ((k, x) # kxs) f acc =
     (case f x of Inl e \<Rightarrow> Inl e | Inr y \<Rightarrow> fill_dict kxs f (dict_set acc k y))"

definition calculate_descriptive_stats ::
  "likert_data \<Rightarrow> py_error + (string \<times> (string \<times> descriptive_stats) list) list" where
  "calculate_descriptive_stats likert_data =
     fill_dict likert_data (\<lambda>questions. fill_dict questions question_stats []) []"

subsection \<open>Omnibus chi-squared test\<close>

text \<open>
  \<open>scipy.stats.chi2_contingency\<close> is a parameter \<open>chi2c\<close> of the model: given the
  table it returns the statistic, the p-value and the degrees of freedom, or raises.
\<close>

type_synonym chi2_contingency = "nat list list \<Rightarrow> py_error + (pyfloat \<times> pyfloat \<times> nat)"

record omnibus_result =
  chi2 :: pyfloat
  p_value :: pyfloat
  dof :: nat
  significant :: bool
  contingency_table :: "nat list list"
  res_note :: "string option"

definition contingency_row :: "int list \<Rightarrow> nat list" where
  "contingency_row data = map (count_list data) [1, 2, 3, 4, 5]"

fun table_rows :: "likert_data \<Rightarrow> string \<Rightarrow> string list \<Rightarrow> py_error + nat list list" where
  "table_rows likert_data question [] = Inr []"
| "table_rows likert_data question (prototype # ps) =
     (case likert_values likert_data prototype question of
        Inl e \<Rightarrow> Inl e
      | Inr data \<Rightarrow>
          (case table_rows likert_data question ps of
             Inl e \<Rightarrow> Inl e
           | Inr rows \<Rightarrow> Inr (contingency_row data # rows)))"

definition build_contingency_table :: "likert_data \<Rightarrow> string \<Rightarrow> py_error + nat list list" where
  "build_contingency_table likert_data question =
     table_rows likert_data question [''A'', ''B'', ''C'']"

text \<open>\<open>table.sum(axis=0)\<close> of a table with five columns, and the column mask.\<close>

definition column_sums :: "nat list list \<Rightarrow> nat list" where
  "column_sums table = map (\<lambda>j. sum_list (map (\<lambda>row. row ! j) table)) [0..<5]"

definition non_zero_cols :: "nat list list \<Rightarrow> bool list" where
  "non_zero_cols table = map (\<lambda>s. s > 0) (column_sums table)"

definition select_cols :: "bool list \<Rightarrow> nat list \<Rightarrow> nat list" where
  "select_cols keep row = map fst (filter snd (zip row keep))"

definition filtered_table :: "nat list list \<Rightarrow> nat list list" where
  "filtered_table table = map (select_cols (non_zero_cols table)) table"

definition table_size :: "nat list list \<Rightarrow> nat" where
  "table_size table = sum_list (map length table)"

definition table_sum :: "nat list list \<Rightarrow> nat" where
  "table_sum table = sum_list (map sum_list table)"

definition placeholder :: "nat list list \<Rightarrow> string \<Rightarrow> omnibus_result" where
  "placeholder table msg =
     \<lparr>chi2 = NaN, p_value = Fin 1, dof = 0, significant = False,
      contingency_table = table, res_note = Some msg\<rparr>"

definition omnibus_test :: "chi2_contingency \<Rightarrow> nat list list \<Rightarrow> py_error + omnibus_result" where
  "omnibus_test chi2c table =
     (let filtered = filtered_table table in
      if table_size filtered > 0 \<and> table_sum filtered > 0 then
        (case chi2c filtered of
           Inr (c, p, d) \<Rightarrow>
             Inr \<lparr>chi2 = c, p_value = p, dof = d, significant = float_lt p (Fin 0.05),
                  contingency_table = table, res_note = None\<rparr>
         | Inl e \<Rightarrow>
             if e = ValueError
             then Inr (placeholder table ''Chi-squared test not applicable due to sparse data'')
             else Inl e)
      else Inr (placeholder table ''No variation in data''))"

definition omnibus_question ::
  "chi2_contingency \<Rightarrow> likert_data \<Rightarrow> string \<Rightarrow> py_error + omnibus_result" where
  "omnibus_question chi2c likert_data question =
     (case build_contingency_table likert_data question of
        Inl e \<Rightarrow> Inl e
      | Inr table \<Rightarrow> omnibus_test chi2c table)"

fun omnibus_loop ::
  "chi2_contingency \<Rightarrow> likert_data \<Rightarrow> string list \<Rightarrow> (string \<times> omnibus_result) list
     \<Rightarrow> py_error + (string \<times> omnibus_result) list" where
  "omnibus_loop chi2c likert_data [] omnibus_results = Inr omnibus_results"
| "omnibus_loop chi2c likert_data (question # qs) omnibus_results =
     (case omnibus_question chi2c likert_data question of
        Inl e \<Rightarrow> Inl e
      | Inr r \<Rightarrow> omnibus_loop chi2c likert_data qs (dict_set omnibus_results question r))"

definition perform_chi_squared_omnibus ::
  "chi2_contingency \<Rightarrow> likert_data \<Rightarrow> py_error + (string \<times> omnibus_result) list" where
  "perform_chi_squared_omnibus chi2c likert_data =
     (case likert_data of
        [] \<Rightarrow> Inl StopIteration
      | (_, first_questions) # _ \<Rightarrow>
          omnibus_loop chi2c likert_data (dict_keys first_questions) [])"

subsection \<open>The chi-squared test of independence\<close>

text \<open>
  \<open>scipy.stats.chi2_contingency(observed)\<close> as its documentation gives it, in exact
  arithmetic. The expected frequency of a cell is the product of its row total and its
  column total over the grand total; the degrees of freedom are
  \<open>(rows - 1) * (columns - 1)\<close>; the statistic is the sum over the cells of
  \<open>(observed - expected)\<^sup>2 / expected\<close>, with Yates' continuity correction of the
  observed values when there is one degree of freedom; the p-value is the survival
  function \<open>sf\<close> of the chi-squared distribution at the statistic, a parameter of the
  model. An empty table and a table with an expected frequency of zero raise
  \<open>ValueError\<close>; with no degrees of freedom the statistic is \<open>0\<close> and the p-value \<open>1\<close>.
\<close>

definition ncols :: "nat list list \<Rightarrow> nat" where
  "ncols table = (case table of [] \<Rightarrow> 0 | row # _ \<Rightarrow> length row)"

definition col_total :: "nat list list \<Rightarrow> nat \<Rightarrow> nat" where
  "col_total table j = sum_list (map (\<lambda>row. row ! j) table)"

definition expected_freq :: "nat list list \<Rightarrow> nat list \<Rightarrow> nat \<Rightarrow> real" where
  "expected_freq table row j =
     real (sum_list row) * real (col_total table j) / real (table_sum table)"

definition yates :: "real \<Rightarrow> real \<Rightarrow> real" where
  "yates obs ex = obs + min (1 / 2) \<bar>ex - obs\<bar> * sgn (ex - obs)"

definition cell_term :: "bool \<Rightarrow> real \<Rightarrow> real \<Rightarrow> real" where
  "cell_term correction obs ex =
     (let ob = (if correction then yates obs ex else obs) in (ob - ex) * (ob - ex) / ex)"

definition row_stat :: "bool \<Rightarrow> nat list list \<Rightarrow> nat list \<Rightarrow> real" where
  "row_stat correction table row =
     sum_list (map (\<lambda>j. cell_term correction (real (row ! j)) (expected_freq table row j))
       [0..<ncols table])"

definition chi2_statistic :: "bool \<Rightarrow> nat list list \<Rightarrow> real" where
  "chi2_statistic correction table = sum_list (map (row_stat correction table) table)"

definition chi2_dof :: "nat list list \<Rightarrow> nat" where
  "chi2_dof table = (length table - 1) * (ncols table - 1)"

definition chi2_contingency :: "(real \<Rightarrow> nat \<Rightarrow> real) \<Rightarrow> chi2_contingency" where
  "chi2_contingency sf table =
     (if table_size table = 0 then Inl ValueError
      else if table_sum table = 0 then
        (if chi2_dof table = 0 then Inr (Fin 0, Fin 1, 0) else Inr (NaN, NaN, chi2_dof table))
      else if list_ex (\<lambda>row. sum_list row = 0) table
              \<or> list_ex (\<lambda>j. col_total table j = 0) [0..<ncols table]
      then Inl ValueError
      else if chi2_dof table = 0 then Inr (Fin 0, Fin 1, 0)
      else
        (let stat = chi2_statistic (chi2_dof table = 1) table
         in Inr (Fin stat, Fin (sf stat (chi2_dof table)), chi2_dof table)))"

subsection \<open>Pairwise Kolmogorov-Smirnov tests\<close>

text \<open>\<open>scipy.stats.ks_2samp\<close> is a parameter: the statistic and the p-value, or raises.\<close>

type_synonym ks_2samp = "int list \<Rightarrow> int list \<Rightarrow> py_error + (pyfloat \<times> pyfloat)"

record pairwise_result =
  ks_statistic :: pyfloat
  pw_p_value :: pyfloat
  adjusted_p_value :: pyfloat
  pw_significant :: bool

definition pairs :: "(string \<times> string) list" where
  "pairs = [(''A'', ''B''), (''A'', ''C''), (''B'', ''C'')]"

definition bonferroni :: "pyfloat \<Rightarrow> pyfloat \<Rightarrow> pairwise_result" where
  "bonferroni ks_stat p =
     (let adjusted_p = float_mul p (Fin 3) in
      \<lparr>ks_statistic = ks_stat, pw_p_value = p,
       adjusted_p_value = py_min adjusted_p (Fin 1),
       pw_significant = float_lt adjusted_p (Fin 0.05)\<rparr>)"

definition pair_test ::
  "ks_2samp \<Rightarrow> likert_data \<Rightarrow> string \<Rightarrow> string \<Rightarrow> string \<Rightarrow> py_error + pairwise_result" where
  "pair_test ks likert_data question p1 p2 =
     (case likert_values likert_data p1 question of
        Inl e \<Rightarrow> Inl e
      | Inr data1 \<Rightarrow>
          (case likert_values likert_data p2 question of
             Inl e \<Rightarrow> Inl e
           | Inr data2 \<Rightarrow>
               (case ks data1 data2 of
                  Inl e \<Rightarrow> Inl e
                | Inr (ks_stat, p) \<Rightarrow> Inr (bonferroni ks_stat p))))"

fun pairs_loop ::
  "ks_2samp \<Rightarrow> likert_data \<Rightarrow> string \<Rightarrow> (string \<times> string) list
     \<Rightarrow> (string \<times> pairwise_result) list \<Rightarrow> py_error + (string \<times> pairwise_result) list" where
  "pairs_loop ks likert_data question [] acc = Inr acc"
| "pairs_loop ks likert_data question ((p1, p2) # ps) acc =
     (case pair_test ks likert_data question p1 p2 of
        Inl e \<Rightarrow> Inl e
      | Inr r \<Rightarrow> pairs_loop ks likert_data question ps (dict_set acc (p1 @ '' vs '' @ p2) r))"

fun pairwise_loop ::
  "ks_2samp \<Rightarrow> likert_data \<Rightarrow> (string \<times> omnibus_result) list
     \<Rightarrow> (string \<times> (string \<times> pairwise_result) list) list
     \<Rightarrow> py_error + (string \<times> (string \<times> pairwise_result) list) list" where
  "pairwise_loop ks likert_data [] pairwise_results = Inr pairwise_results"
| "pairwise_loop ks likert_data ((question, omnibus) # rest) pairwise_results =
     (if significant omnibus then
        (case pairs_loop ks likert_data question pairs [] of
           Inl e \<Rightarrow> Inl e
         | Inr prs \<Rightarrow>
             pairwise_loop ks likert_data rest (dict_set pairwise_results question prs))
      else pairwise_loop ks likert_data rest pairwise_results)"

definition perform_pairwise_ks_tests ::
  "ks_2samp \<Rightarrow> likert_data \<Rightarrow> (string \<times> omnibus_result) list
     \<Rightarrow> py_error + (string \<times> (string \<times> pairwise_result) list) list" where
  "perform_pairwise_ks_tests ks likert_data omnibus_results =
     pairwise_loop ks likert_data omnibus_results []"

subsection \<open>Ranking questions\<close>

text \<open>\<open>scipy.stats.chisquare\<close> is a parameter: the statistic and the p-value, or raises.\<close>

type_synonym chisquare = "nat list \<Rightarrow> pyfloat list \<Rightarrow> py_error + (pyfloat \<times> pyfloat)"

record ranking_result =
  counts :: "(string \<times> nat) list"
  rk_chi2 :: pyfloat
  rk_p_value :: pyfloat
  rk_significant :: bool
  rk_total_responses :: nat

definition ranking_questions :: "(string \<times> string) list" where
  "ranking_questions =
     [(''1763433609862'', ''BEST''),
      (''1763433957657'', ''SECOND BEST''),
      (''1763434721787'', ''WORST'')]"

text \<open>\<open>sum(1 for a in answers if name in a)\<close>\<close>

definition count_mentions :: "string \<Rightarrow> string list \<Rightarrow> nat" where
  "count_mentions name as = length (filter (\<lambda>a. str_in name a) as)"

definition prototype_counts :: "string list \<Rightarrow> (string \<times> nat) list" where
  "prototype_counts as =
     [(''Prototype A'', count_mentions ''Prototype A'' as),
      (''Prototype B'', count_mentions ''Prototype B'' as),
      (''Prototype C'', count_mentions ''Prototype C'' as)]"

definition ranking_question :: "chisquare \<Rightarrow> string list \<Rightarrow> py_error + ranking_result" where
  "ranking_question chisq as =
     (let cs = prototype_counts as;
          n_total = sum_list (dict_values cs);
          expected = Fin (real n_total / 3)
      in case chisq (dict_values cs) (replicate 3 expected) of
           Inl e \<Rightarrow> Inl e
         | Inr (c, p) \<Rightarrow>
             Inr \<lparr>counts = cs, rk_chi2 = c, rk_p_value = p,
                  rk_significant = float_lt p (Fin 0.05), rk_total_responses = n_total\<rparr>)"

definition analyze_ranking_questions ::
  "chisquare \<Rightarrow> df_row list \<Rightarrow> py_error + (string \<times> ranking_result) list" where
  "analyze_ranking_questions chisq df =
     fill_dict (map (\<lambda>(q_id, label). (label, q_id)) ranking_questions)
       (\<lambda>q_id. ranking_question chisq (answers_of df q_id)) []"

section \<open>Properties of the dictionaries and counters\<close>

lemma dict_keys_dict_set:
  "dict_keys (dict_set d k v) = (if k \<in> set (dict_keys d) then dict_keys d else dict_keys d @ [k])"
  by (induction d) force+

lemma keys_dict_set [simp]: "fst ` set (dict_set d k v) = insert k (fst ` set d)"
proof -
  have "set (dict_keys (dict_set d k v)) = insert k (set (dict_keys d))"
    by (subst dict_keys_dict_set) auto
  then show ?thesis by simp
qed

lemma map_of_dict_set: "map_of (dict_set d k v) = (map_of d)(k \<mapsto> v)"
  by (induction d) (auto simp: fun_eq_iff)

lemma set_dict_set: "set (dict_set d k v) \<subseteq> insert (k, v) (set d)"
  by (induction d) (auto split: if_splits)

lemma dict_set_all:
  "\<forall>(k, v)\<in>set d. P k v \<Longrightarrow> P k' v' \<Longrightarrow> \<forall>(k, v)\<in>set (dict_set d k' v'). P k v"
  by (induction d) (auto split: if_splits)

lemma length_dict_set_le: "length (dict_set d k v) \<le> Suc (length d)"
  by (induction d) auto

lemma distinct_dict_set:
  "distinct (dict_keys d) \<Longrightarrow> distinct (dict_keys (dict_set d k v))"
  by (simp add: dict_keys_dict_set)

lemma sum_counter_add: "sum_list (dict_values (counter_add c x)) = Suc (sum_list (dict_values c))"
  unfolding counter_add_def dict_get_def
  by (induction c) auto

lemma sum_counter_fold:
  "sum_list (dict_values (fold (\<lambda>x c. counter_add c x) xs c)) = sum_list (dict_values c) + length xs"
  by (induction xs arbitrary: c) (simp_all add: sum_counter_add)

lemma sum_Counter: "sum_list (dict_values (Counter xs)) = length xs"
  by (simp add: Counter_def sum_counter_fold)

lemma dict_get_counter_add:
  "dict_get (counter_add c x) y 0 = (if y = x then dict_get c x 0 + 1 else dict_get c y 0)"
  by (simp add: dict_get_def counter_add_def map_of_dict_set)

lemma dict_get_counter_fold:
  "dict_get (fold (\<lambda>x c. counter_add c x) xs c) y 0 = dict_get c y 0 + count_list xs y"
  by (induction xs arbitrary: c) (auto simp: dict_get_counter_add)

lemma dom_counter_fold:
  "fst ` set (fold (\<lambda>x c. counter_add c x) xs c) = fst ` set c \<union> set xs"
  by (induction xs arbitrary: c) (simp_all add: counter_add_def)

text \<open>A counter maps exactly the elements of the list, each to its number of occurrences.\<close>

lemma map_of_Counter:
  "map_of (Counter xs) y = (if y \<in> set xs then Some (count_list xs y) else None)"
proof (cases "y \<in> set xs")
  case True
  then have "y \<in> fst ` set (Counter xs)"
    by (simp add: Counter_def dom_counter_fold)
  then have "map_of (Counter xs) y \<noteq> None"
    by (simp add: map_of_eq_None_iff)
  then obtain n where n: "map_of (Counter xs) y = Some n"
    by auto
  from dict_get_counter_fold [of xs "[]" y] have "dict_get (Counter xs) y 0 = count_list xs y"
    by (simp add: Counter_def dict_get_def)
  with n True show ?thesis by (simp add: dict_get_def)
next
  case False
  then have "y \<notin> fst ` set (Counter xs)"
    by (simp add: Counter_def dom_counter_fold)
  then have "map_of (Counter xs) y = None"
    by (simp add: map_of_eq_None_iff)
  with False show ?thesis by simp
qed

lemma count_list_filter_keep: "P a \<Longrightarrow> count_list (filter P xs) a = count_list xs a"
  by (induction xs) auto

section \<open>Properties of the needfinding analysis\<close>

subsection \<open>Classification\<close>

text \<open>
  Matching against the lower-cased text is matching some substring of the text up to
  the case of its letters.
\<close>

lemma sublist_map_iff:
  "sublist p (map f t) \<longleftrightarrow> (\<exists>u. sublist u t \<and> map f u = p)"
  unfolding sublist_def
  by (auto simp: map_eq_append_conv append_eq_map_conv) blast+

lemma str_in_lower_iff: "str_in p (lower t) \<longleftrightarrow> (\<exists>u. str_in u t \<and> lower u = p)"
  unfolding lower_def by (rule sublist_map_iff)

text \<open>
  Claim C4, as amended. The classifier looks at the lower-cased question text. A text
  containing \<open>consent\<close> is \<open>skip\<close>; otherwise a text containing one of the three
  free-text phrases is \<open>free_text\<close>; otherwise a text containing
  \<open>select all that apply\<close> is \<open>select_all\<close>; every other text is
  \<open>multiple_choice\<close>. The order of the rules is consent, free text, select-all.
\<close>

theorem identify_question_type_order:
  "identify_question_type q =
     (if str_in ''consent'' (lower (qtext q)) then Skip
      else if str_in ''briefly describe'' (lower (qtext q))
              \<or> str_in ''if you selected \"other\"'' (lower (qtext q))
              \<or> str_in ''if you could magically conjure'' (lower (qtext q)) then Free_text
      else if str_in ''select all that apply'' (lower (qtext q)) then Select_all
      else Multiple_choice)"
  by (simp add: identify_question_type_def free_text_phrases_def Let_def)

theorem identify_question_type_order_witness:
  "identify_question_type
     \<lparr>qid = ''1'', qtext = ''Select all that apply, then briefly describe'', qanswers = []\<rparr>
   = Free_text"
  using identify_question_type_order
    [of "\<lparr>qid = ''1'', qtext = ''Select all that apply, then briefly describe'', qanswers = []\<rparr>"]
  by (simp add: lower_def lower_char_def sublist_code prefix_code)

text \<open>
  Claim C4 as stated puts the select-all rule before the free-text rule. A text that
  contains both \<open>select all that apply\<close> and \<open>briefly describe\<close>, and not
  \<open>consent\<close>, is not classified as \<open>select_all\<close>.
\<close>

theorem select_all_first_counterexample:
  "str_in ''select all that apply'' (lower ''Select all that apply, then briefly describe'')
   \<and> \<not> str_in ''consent'' (lower ''Select all that apply, then briefly describe'')
   \<and> identify_question_type
       \<lparr>qid = ''1'', qtext = ''Select all that apply, then briefly describe'', qanswers = []\<rparr>
     \<noteq> Select_all"
  by code_simp

subsection \<open>Bar charts of trip-frequency questions\<close>

lemma fold_custom_zero:
  "fold (\<lambda>item od. dict_set od item (dict_get data item 0)) trips_order []
     = map (\<lambda>k. (k, dict_get data k (0::nat))) trips_order"
  by (simp add: trips_order_def)

text \<open>
  Claim C8. For a question whose lower-cased text contains \<open>how many trips\<close> and
  neither \<open>how many times\<close> nor \<open>away from your home city\<close>, the bars of the bar
  chart are the five trip buckets in their fixed order, each with its count in the data
  and with count zero when the data has no such answer.
\<close>

theorem trip_frequency_bar_order:
  assumes "str_in ''how many trips'' (lower t)"
    and "\<not> str_in ''how many times'' (lower t)"
    and "\<not> str_in ''away from your home city'' (lower t)"
  shows "dict_keys (create_bar_chart data t)
           = [''0 trips'', ''1-2 trips'', ''3-5 trips'', ''6-10 trips'', ''11+ trips'']
       \<and> create_bar_chart data t = map (\<lambda>k. (k, dict_get data k 0)) trips_order"
proof -
  from assms have "create_bar_chart data t = map (\<lambda>k. (k, dict_get data k 0)) trips_order"
    by (simp add: create_bar_chart_def order_data_for_chart_def get_custom_order_def
        fold_custom_zero)
  then show ?thesis by (simp add: trips_order_def)
qed

theorem trip_frequency_bar_order_witness:
  "create_bar_chart [(''3-5 trips'', 2), (''0 trips'', 1), (''many'', 4)]
     ''How many trips did you take?''
     = [(''0 trips'', 1), (''1-2 trips'', 0), (''3-5 trips'', 2), (''6-10 trips'', 0),
        (''11+ trips'', 0)]"
proof -
  have a: "str_in ''how many trips'' (lower ''How many trips did you take?'')" by code_simp
  have b: "\<not> str_in ''how many times'' (lower ''How many trips did you take?'')" by code_simp
  have c: "\<not> str_in ''away from your home city'' (lower ''How many trips did you take?'')"
    by code_simp
  show ?thesis
    using trip_frequency_bar_order [OF a b c,
        of "[(''3-5 trips'', 2), (''0 trips'', 1), (''many'', 4)]", THEN conjunct2]
    by (simp add: trips_order_def dict_get_def)
qed

subsection \<open>Pie charts\<close>

lemma fold_present_keys:
  "distinct (dict_keys acc) \<Longrightarrow> fst ` set acc \<subseteq> fst ` set data \<Longrightarrow>
   distinct (dict_keys (fold (\<lambda>item od. case map_of data item of
                                Some cnt \<Rightarrow> dict_set od item cnt | None \<Rightarrow> od) cs acc))
   \<and> fst ` set (fold (\<lambda>item od. case map_of data item of
                                Some cnt \<Rightarrow> dict_set od item cnt | None \<Rightarrow> od) cs acc)
       \<subseteq> fst ` set data"
proof (induction cs arbitrary: acc)
  case Nil
  then show ?case by simp
next
  case (Cons c cs)
  show ?case
  proof (cases "map_of data c")
    case None
    with Cons show ?thesis by simp
  next
    case (Some n)
    then have "c \<in> fst ` set data" by (metis map_of_SomeD fst_conv image_eqI)
    with Cons.prems have "distinct (dict_keys (dict_set acc c n))"
      "fst ` set (dict_set acc c n) \<subseteq> fst ` set data"
      by (simp_all add: distinct_dict_set)
    from Cons.IH [OF this] Some show ?thesis by simp
  qed
qed

lemma fold_missing_keys:
  "distinct (dict_keys acc) \<Longrightarrow>
   distinct (dict_keys (fold (\<lambda>(item, cnt) od.
               if item \<notin> set (dict_keys od) then dict_set od item cnt else od) xs acc))
   \<and> fst ` set (fold (\<lambda>(item, cnt) od.
               if item \<notin> set (dict_keys od) then dict_set od item cnt else od) xs acc)
       = fst ` set acc \<union> fst ` set xs"
proof (induction xs arbitrary: acc)
  case Nil
  then show ?case by simp
next
  case (Cons x xs)
  obtain k v where x: "x = (k, v)" by (cases x)
  show ?case
  proof (cases "k \<in> fst ` set acc")
    case True
    with Cons x show ?thesis by auto
  next
    case False
    from Cons.prems have "distinct (dict_keys (dict_set acc k v))"
      by (rule distinct_dict_set)
    from Cons.IH [OF this] False x show ?thesis by auto
  qed
qed

text \<open>Ordering a dictionary for a pie chart keeps the number of its categories.\<close>

lemma length_order_data_for_chart:
  assumes "distinct (dict_keys data)"
  shows "length (order_data_for_chart data q False) = length data"
proof (cases "get_custom_order q")
  case None
  then show ?thesis by (simp add: order_data_for_chart_def sorted_by_count_desc_def)
next
  case (Some cs)
  let ?od1 = "fold (\<lambda>item od. case map_of data item of
                                Some cnt \<Rightarrow> dict_set od item cnt | None \<Rightarrow> od) cs []"
  let ?od2 = "fold (\<lambda>(item, cnt) od.
               if item \<notin> set (dict_keys od) then dict_set od item cnt else od) data ?od1"
  have 1: "distinct (dict_keys ?od1)" "fst ` set ?od1 \<subseteq> fst ` set data"
    using fold_present_keys [of "[]" data cs] by simp_all
  from fold_missing_keys [OF 1(1), of data] 1(2)
  have 2: "distinct (dict_keys ?od2)" "fst ` set ?od2 = fst ` set data"
    by auto
  have "length ?od2 = length (dict_keys ?od2)" by simp
  also have "\<dots> = card (set (dict_keys ?od2))"
    using 2(1) by (rule distinct_card [symmetric])
  also have "\<dots> = card (set (dict_keys data))"
    using 2(2) by simp
  also have "\<dots> = length (dict_keys data)"
    using assms by (rule distinct_card)
  also have "\<dots> = length data" by simp
  finally have "length ?od2 = length data" .
  with Some show ?thesis by (simp add: order_data_for_chart_def Let_def)
qed

lemma dict_set_new: "k \<notin> fst ` set d \<Longrightarrow> dict_set d k v = d @ [(k, v)]"
  by (induction d) auto

text \<open>
  Claim C5, as amended. A pie chart never has more than 8 slices. A frequency mapping
  is first put in chart order, which keeps the number of its categories. With at most 8
  categories every category is a slice of its own. With more than 8 categories, none of
  the first 7 in chart order being itself named \<open>Other Categories\<close>, the slices are
  these first 7 and, after them, one slice named \<open>Other Categories\<close> with the sum of
  the other counts, drawn when that sum is positive.
\<close>

theorem pie_chart_slices:
  "length (create_pie_chart data q) \<le> 8
   \<and> (distinct (dict_keys data) \<longrightarrow>
        length (order_data_for_chart data q False) = length data)
   \<and> (length (order_data_for_chart data q False) \<le> 8 \<longrightarrow>
        create_pie_chart data q = order_data_for_chart data q False)
   \<and> (8 < length (order_data_for_chart data q False)
        \<and> ''Other Categories'' \<notin> set (dict_keys (take 7 (order_data_for_chart data q False)))
        \<longrightarrow>
        create_pie_chart data q =
          take 7 (order_data_for_chart data q False)
          @ (if 0 < sum_list (drop 7 (dict_values (order_data_for_chart data q False)))
             then [(''Other Categories'',
                     sum_list (drop 7 (dict_values (order_data_for_chart data q False))))]
             else []))"
proof -
  let ?sorted = "order_data_for_chart data q False"
  have "length (dict_set (take 7 ?sorted) ''Other Categories'' n) \<le> 8" for n
    using length_dict_set_le [of "take 7 ?sorted" "''Other Categories''" n] by simp
  then have 1: "length (create_pie_chart data q) \<le> 8"
    by (simp add: create_pie_chart_def Let_def)
  have 2: "distinct (dict_keys data) \<longrightarrow> length ?sorted = length data"
    by (simp add: length_order_data_for_chart)
  have 3: "length ?sorted \<le> 8 \<longrightarrow> create_pie_chart data q = ?sorted"
    by (simp add: create_pie_chart_def Let_def)
  have 4: "create_pie_chart data q =
          take 7 ?sorted
          @ (if 0 < sum_list (drop 7 (dict_values ?sorted))
             then [(''Other Categories'', sum_list (drop 7 (dict_values ?sorted)))]
             else [])"
    if "8 < length ?sorted" "''Other Categories'' \<notin> set (dict_keys (take 7 ?sorted))"
  proof -
    from that(2) have "''Other Categories'' \<notin> fst ` set (take 7 ?sorted)" by simp
    then have "dict_set (take 7 ?sorted) ''Other Categories'' n
        = take 7 ?sorted @ [(''Other Categories'', n)]" for n
      by (rule dict_set_new)
    with that(1) show ?thesis by (simp add: create_pie_chart_def Let_def)
  qed
  from 1 2 3 4 show ?thesis by blast
qed

lemma order_example:
  "order_data_for_chart
     [(''a'', 1), (''b'', 2), (''c'', 1), (''d'', 1), (''e'', 1), (''f'', 1), (''g'', 1),
      (''h'', 1), (''i'', 3)] ''Which tool?'' False
   = [(''i'', 3), (''b'', 2), (''a'', 1), (''c'', 1), (''d'', 1), (''e'', 1), (''f'', 1),
      (''g'', 1), (''h'', 1)]"
  by code_simp

theorem pie_chart_slices_witness:
  "create_pie_chart
     [(''a'', 1), (''b'', 2), (''c'', 1), (''d'', 1), (''e'', 1), (''f'', 1), (''g'', 1),
      (''h'', 1), (''i'', 3)] ''Which tool?''
   = [(''i'', 3), (''b'', 2), (''a'', 1), (''c'', 1), (''d'', 1), (''e'', 1), (''f'', 1),
      (''Other Categories'', 2)]
   \<and> length (create_pie_chart
     [(''a'', 1), (''b'', 2), (''c'', 1), (''d'', 1), (''e'', 1), (''f'', 1), (''g'', 1),
      (''h'', 1), (''i'', 3)] ''Which tool?'') \<le> 8"
proof -
  note t = pie_chart_slices [of "[(''a'', 1), (''b'', 2), (''c'', 1), (''d'', 1), (''e'', 1),
      (''f'', 1), (''g'', 1), (''h'', 1), (''i'', 3)]" "''Which tool?''"]
  from t [THEN conjunct2, THEN conjunct2, THEN conjunct2] order_example
  have "create_pie_chart
     [(''a'', 1), (''b'', 2), (''c'', 1), (''d'', 1), (''e'', 1), (''f'', 1), (''g'', 1),
      (''h'', 1), (''i'', 3)] ''Which tool?''
   = [(''i'', 3), (''b'', 2), (''a'', 1), (''c'', 1), (''d'', 1), (''e'', 1), (''f'', 1),
      (''Other Categories'', 2)]"
    by simp
  with t [THEN conjunct1] show ?thesis by (rule conjI [rotated])
qed

text \<open>
  Claim C5 as stated collapses every category beyond the seventh. A mapping with
  exactly 8 categories is drawn with 8 slices: the eighth category \<open>h\<close> keeps its own
  slice and there is no collapsed slice.
\<close>

theorem pie_chart_eight_counterexample:
  "create_pie_chart
     [(''a'', 8), (''b'', 7), (''c'', 6), (''d'', 5), (''e'', 4), (''f'', 3), (''g'', 2), (''h'', 1)]
     ''Which tool?''
   = [(''a'', 8), (''b'', 7), (''c'', 6), (''d'', 5), (''e'', 4), (''f'', 3), (''g'', 2), (''h'', 1)]"
  by code_simp

subsection \<open>Counts and total of a multiple-choice question\<close>

lemma filter_none_split:
  "length (filter (\<lambda>a. a \<noteq> [] \<and> lower a \<notin> set [''n/a'', ''na'']) as)
     = length (filter (\<lambda>a. a \<noteq> [] \<and> lower a \<notin> set [''n/a'', ''na'', ''none'']) as)
       + length (filter (\<lambda>a. lower a = ''none'') as)"
  by (induction as) (auto simp: lower_def)

lemma Counter_empty_iff: "Counter xs = [] \<longleftrightarrow> xs = []"
proof -
  have "fst ` set (Counter xs) = set xs"
    by (simp add: Counter_def dom_counter_fold)
  then show ?thesis by (cases xs) auto
qed

text \<open>
  Claim C9. A multiple-choice question with at least one answer that is neither empty
  nor \<open>n/a\<close> or \<open>na\<close> up to case yields a result, and no other multiple-choice
  question does. In the result every answer equal to \<open>none\<close> up to case is a key of
  the counter, with its number of occurrences; the reported total leaves out the empty
  answers and those equal to \<open>n/a\<close>, \<open>na\<close> or \<open>none\<close> up to case; so the counts add
  up to the total plus the number of \<open>none\<close> answers, which is strictly more than the
  total as soon as one answer is \<open>none\<close>.
\<close>

theorem multiple_choice_counts_none:
  assumes "identify_question_type q = Multiple_choice"
  shows "if \<exists>a\<in>set (qanswers q). a \<noteq> [] \<and> lower a \<notin> {''n/a'', ''na''}
         then \<exists>r figs. analyze_question q = Some (r, figs)
            \<and> (\<forall>a\<in>set (qanswers q). lower a = ''none'' \<longrightarrow>
                  map_of (statistics r) a = Some (count_list (qanswers q) a))
            \<and> total_responses r =
                length (filter (\<lambda>a. a \<noteq> [] \<and> lower a \<notin> {''n/a'', ''na'', ''none''})
                  (qanswers q))
            \<and> sum_list (dict_values (statistics r)) =
                total_responses r + length (filter (\<lambda>a. lower a = ''none'') (qanswers q))
            \<and> ((\<exists>a\<in>set (qanswers q). lower a = ''none'') \<longrightarrow>
                  total_responses r < sum_list (dict_values (statistics r)))
         else analyze_question q = None"
proof (cases "\<exists>a\<in>set (qanswers q). a \<noteq> [] \<and> lower a \<notin> {''n/a'', ''na''}")
  case False
  then have "filter (\<lambda>ans. ans \<noteq> [] \<and> lower ans \<notin> set [''n/a'', ''na'']) (qanswers q) = []"
    by (auto simp: filter_empty_conv)
  then have "process_multiple_choice_question (qanswers q) = []"
    by (simp add: process_multiple_choice_question_def Counter_empty_iff)
  with assms False show ?thesis by (simp add: analyze_question_def Let_def)
next
  case True
  then have "filter (\<lambda>ans. ans \<noteq> [] \<and> lower ans \<notin> set [''n/a'', ''na'']) (qanswers q) \<noteq> []"
    by (auto simp: filter_empty_conv)
  then have ne: "process_multiple_choice_question (qanswers q) \<noteq> []"
    by (simp add: process_multiple_choice_question_def Counter_empty_iff)
  with assms obtain r figs where res: "analyze_question q = Some (r, figs)"
    and st: "statistics r = process_multiple_choice_question (qanswers q)"
    and tot: "total_responses r = count_total_responses (qanswers q)"
    by (simp add: analyze_question_def Let_def)
  have cnt: "map_of (statistics r) a = Some (count_list (qanswers q) a)"
    if "a \<in> set (qanswers q)" "lower a = ''none''" for a
  proof -
    from that have "a \<noteq> []" by (auto simp: lower_def)
    with that have "count_list
        (filter (\<lambda>ans. ans \<noteq> [] \<and> lower ans \<notin> set [''n/a'', ''na'']) (qanswers q)) a
        = count_list (qanswers q) a"
      by (intro count_list_filter_keep) simp
    with that \<open>a \<noteq> []\<close> show ?thesis
      by (simp add: st process_multiple_choice_question_def map_of_Counter)
  qed
  have sum: "sum_list (dict_values (statistics r)) =
      total_responses r + length (filter (\<lambda>a. lower a = ''none'') (qanswers q))"
    by (simp only: st tot process_multiple_choice_question_def count_total_responses_def
        sum_Counter filter_none_split)
  have "0 < length (filter (\<lambda>a. lower a = ''none'') (qanswers q))"
    if "\<exists>a\<in>set (qanswers q). lower a = ''none''"
    using that by (simp add: filter_empty_conv)
  with sum have strict: "(\<exists>a\<in>set (qanswers q). lower a = ''none'') \<longrightarrow>
            total_responses r < sum_list (dict_values (statistics r))"
    by simp
  have tot': "total_responses r =
      length (filter (\<lambda>a. a \<noteq> [] \<and> lower a \<notin> {''n/a'', ''na'', ''none''}) (qanswers q))"
    by (simp add: tot count_total_responses_def)
  from res cnt tot' sum strict have "\<exists>r figs. analyze_question q = Some (r, figs)
            \<and> (\<forall>a\<in>set (qanswers q). lower a = ''none'' \<longrightarrow>
                  map_of (statistics r) a = Some (count_list (qanswers q) a))
            \<and> total_responses r =
                length (filter (\<lambda>a. a \<noteq> [] \<and> lower a \<notin> {''n/a'', ''na'', ''none''})
                  (qanswers q))
            \<and> sum_list (dict_values (statistics r)) =
                total_responses r + length (filter (\<lambda>a. lower a = ''none'') (qanswers q))
            \<and> ((\<exists>a\<in>set (qanswers q). lower a = ''none'') \<longrightarrow>
                  total_responses r < sum_list (dict_values (statistics r)))"
    by blast
  with True show ?thesis by simp
qed

lemma classify_example:
  "identify_question_type
     \<lparr>qid = ''7'', qtext = ''Which tool do you use?'', qanswers = [''None'', ''Maps'', ''n/a'']\<rparr>
   = Multiple_choice"
  by code_simp

lemma lower_examples:
  "lower ''None'' = ''none''" "lower ''Maps'' = ''maps''" "lower ''n/a'' = ''n/a''"
  by code_simp+

theorem multiple_choice_counts_none_witness:
  "\<exists>r figs. analyze_question
       \<lparr>qid = ''7'', qtext = ''Which tool do you use?'',
        qanswers = [''None'', ''Maps'', ''n/a'']\<rparr> = Some (r, figs)
     \<and> map_of (statistics r) ''None'' = Some 1
     \<and> total_responses r = 1
     \<and> sum_list (dict_values (statistics r)) = 2"
  using multiple_choice_counts_none [OF classify_example]
  by (simp add: lower_examples) (auto simp: numeral_2_eq_2)

section \<open>Properties of the prototype analysis\<close>

subsection \<open>Rounding to doubles\<close>

lemma round_half_even_bounds: "\<lfloor>x\<rfloor> \<le> round_half_even x" "round_half_even x \<le> \<lfloor>x\<rfloor> + 1"
  by (simp_all add: round_half_even_def Let_def)

lemma round_half_even_of_int [simp]: "round_half_even (of_int n) = n"
  by (simp add: round_half_even_def)

lemma round_half_even_le: "x \<le> of_int n \<Longrightarrow> round_half_even x \<le> n"
proof -
  assume le: "x \<le> of_int n"
  then have "\<lfloor>x\<rfloor> \<le> n" by (simp add: floor_le_iff)
  then consider "\<lfloor>x\<rfloor> < n" | "\<lfloor>x\<rfloor> = n" by linarith
  then show ?thesis
  proof cases
    case 1
    with round_half_even_bounds(2) [of x] show ?thesis by linarith
  next
    case 2
    with le have "x = of_int n" using of_int_floor_le [of x] by linarith
    then show ?thesis by simp
  qed
qed

lemma round_half_even_ge: "of_int n \<le> x \<Longrightarrow> n \<le> round_half_even x"
proof -
  assume "of_int n \<le> x"
  then have "n \<le> \<lfloor>x\<rfloor>" by (simp add: le_floor_iff)
  with round_half_even_bounds(1) [of x] show ?thesis by linarith
qed

lemma round_half_even_mono: "x \<le> y \<Longrightarrow> round_half_even x \<le> round_half_even y"
proof -
  assume le: "x \<le> y"
  then have "\<lfloor>x\<rfloor> \<le> \<lfloor>y\<rfloor>" by (rule floor_mono)
  then consider "\<lfloor>x\<rfloor> < \<lfloor>y\<rfloor>" | "\<lfloor>x\<rfloor> = \<lfloor>y\<rfloor>" by linarith
  then show ?thesis
  proof cases
    case 1
    with round_half_even_bounds(2) [of x] round_half_even_bounds(1) [of y]
    show ?thesis by linarith
  next
    case 2
    with le show ?thesis by (auto simp: round_half_even_def Let_def)
  qed
qed

lemma ulp_exponent_mono: "0 < x \<Longrightarrow> x \<le> y \<Longrightarrow> ulp_exponent x \<le> ulp_exponent y"
  unfolding ulp_exponent_def
  by (intro diff_right_mono max.mono floor_mono) (simp_all)

text \<open>Rounding is monotone on the positive reals.\<close>

lemma fl64_mono_pos:
  assumes "0 < x" and "x \<le> y"
  shows "fl64 x \<le> fl64 y"
proof -
  let ?ex = "ulp_exponent x" and ?ey = "ulp_exponent y"
  let ?ux = "(2::real) powr of_int ?ex" and ?uy = "(2::real) powr of_int ?ey"
  from assms have y: "0 < y" by simp
  have ux: "0 < ?ux" and uy: "0 < ?uy" by simp_all
  from ulp_exponent_mono [OF assms] consider "?ex = ?ey" | "?ex < ?ey" by linarith
  then show ?thesis
  proof cases
    case 1
    from assms(2) ux have "x / ?ux \<le> y / ?ux" by (simp add: divide_right_mono)
    then have "round_half_even (x / ?ux) \<le> round_half_even (y / ?ux)"
      by (rule round_half_even_mono)
    then have "of_int (round_half_even (x / ?ux)) * ?ux \<le> of_int (round_half_even (y / ?ux)) * ?ux"
      using ux by (simp add: mult_right_mono)
    with assms y 1 show ?thesis by (simp add: fl64_def)
  next
    case 2
    \<comment> \<open>\<open>x\<close> lies below the binade of \<open>y\<close>\<close>
    have lx: "\<lfloor>log 2 x\<rfloor> \<le> ?ex + 52" using assms(1) by (simp add: ulp_exponent_def)
    then have "log 2 x < of_int (?ex + 52) + 1" by linarith
    then have "x < 2 powr (of_int (?ex + 53))"
      using assms(1) by (simp add: log_less_iff add.commute)
    then have "x / ?ux < 2 powr (of_int (?ex + 53)) / ?ux"
      using ux by (simp add: divide_strict_right_mono)
    also have "2 powr (of_int (?ex + 53)) / ?ux = 2 powr 53"
      by (simp add: powr_diff [symmetric])
    also have "\<dots> = of_int (2 ^ 53)" by (simp add: powr_numeral)
    finally have "round_half_even (x / ?ux) \<le> 2 ^ 53"
      by (intro round_half_even_le) simp
    then have "of_int (round_half_even (x / ?ux)) * ?ux \<le> of_int (2 ^ 53) * ?ux"
      using ux by (intro mult_right_mono) (simp_all del: of_int_power)
    also have "of_int (2 ^ 53) * ?ux = 2 powr 53 * ?ux" by (simp add: powr_numeral)
    also have "\<dots> = 2 powr (of_int (?ex + 53))" by (simp add: powr_add)
    finally have fx: "fl64 x \<le> 2 powr (of_int (?ex + 53))"
      using assms(1) by (simp add: fl64_def)
    from 2 have "- 1074 \<le> ?ex" by (simp add: ulp_exponent_def)
    with 2 have "- 1074 < ?ey" by linarith
    then have ly: "\<lfloor>log 2 y\<rfloor> = ?ey + 52" using y by (simp add: ulp_exponent_def max_def split: if_splits)
    then have "of_int (?ey + 52) \<le> log 2 y" by linarith
    then have "2 powr (of_int (?ey + 52)) \<le> y"
      using y by (simp add: le_log_iff)
    then have "2 powr (of_int (?ey + 52)) / ?uy \<le> y / ?uy"
      using uy by (simp add: divide_right_mono)
    moreover have "2 powr (of_int (?ey + 52)) / ?uy = of_int (2 ^ 52)"
      by (simp add: powr_diff [symmetric] powr_numeral)
    ultimately have "2 ^ 52 \<le> round_half_even (y / ?uy)"
      by (intro round_half_even_ge) simp
    then have A: "of_int (2 ^ 52) * ?uy \<le> of_int (round_half_even (y / ?uy)) * ?uy"
      using uy by (intro mult_right_mono) (simp_all del: of_int_power)
    have B: "of_int (2 ^ 52) * ?uy = 2 powr (of_int (?ey + 52))"
      by (simp add: powr_add)
    from A have "2 powr (of_int (?ey + 52)) \<le> of_int (round_half_even (y / ?uy)) * ?uy"
      unfolding B .
    then have fy: "2 powr (of_int (?ey + 52)) \<le> fl64 y"
      using y by (simp add: fl64_def)
    from 2 have "2 powr (of_int (?ex + 53)) \<le> (2::real) powr (of_int (?ey + 52))"
      by (intro powr_mono) simp_all
    with fx fy show ?thesis by linarith
  qed
qed

text \<open>
  Within one binade the doubles are the multiples of the spacing. The products below are
  the ones used in the examples; the last is a tie, rounded to the even neighbour, which
  is the double written \<open>0.05\<close>.
\<close>

lemma fl64_binade:
  assumes "2 powr of_int k \<le> \<bar>x\<bar>" and "\<bar>x\<bar> < 2 powr of_int (k + 1)" and "- 1022 \<le> k"
  shows "fl64 x = of_int (round_half_even (x / 2 powr of_int (k - 52))) * 2 powr of_int (k - 52)"
proof -
  have pos: "0 < (2::real) powr of_int k" by simp
  with assms(1) have x: "0 < \<bar>x\<bar>" by linarith
  with assms(1,2) have "\<lfloor>log 2 \<bar>x\<bar>\<rfloor> = k"
    by (simp add: floor_log_eq_powr_iff)
  with assms(3) have "ulp_exponent x = k - 52" by (simp add: ulp_exponent_def)
  with x show ?thesis by (simp add: fl64_def)
qed

lemma round_half_even_numeral [simp]: "round_half_even (numeral n) = numeral n"
  using round_half_even_of_int [of "numeral n"] by simp

lemma fl64_3_64: "fl64 (1 / 64 * 3) = 3 / 64"
proof -
  have "fl64 (3 / 64) = of_int (round_half_even (3 / 64 / 2 powr of_int (- 5 - 52))) * 2 powr of_int (- 5 - 52)"
    by (rule fl64_binade) (simp_all add: powr_minus_divide)
  also have "(3::real) / 64 / 2 powr of_int (- 5 - 52) = of_int (3 * 2 ^ 51)"
    by (simp add: powr_minus_divide)
  finally show ?thesis by (simp add: powr_minus_divide)
qed

lemma fl64_1_64: "fl64 (1 / 64) = 1 / 64"
proof -
  have "fl64 (1 / 64) = of_int (round_half_even (1 / 64 / 2 powr of_int (- 6 - 52))) * 2 powr of_int (- 6 - 52)"
    by (rule fl64_binade) (simp_all add: powr_minus_divide)
  also have "(1::real) / 64 / 2 powr of_int (- 6 - 52) = of_int (2 ^ 52)"
    by (simp add: powr_minus_divide)
  finally show ?thesis by (simp add: powr_minus_divide)
qed

lemma fl64_tie:
  "fl64 (4803839602528529 / 2 ^ 58 * 3) = 3602879701896397 / 2 ^ 56"
proof -
  have "fl64 (4803839602528529 / 2 ^ 58 * 3)
      = of_int (round_half_even (4803839602528529 / 2 ^ 58 * 3 / 2 powr of_int (- 5 - 52)))
          * 2 powr of_int (- 5 - 52)"
    by (rule fl64_binade) (simp_all add: powr_minus_divide)
  also have "(4803839602528529::real) / 2 ^ 58 * 3 / 2 powr of_int (- 5 - 52) = 14411518807585587 / 2"
    by (simp add: powr_minus_divide)
  also have "round_half_even (14411518807585587 / 2) = 7205759403792794"
    by (simp add: round_half_even_def Let_def)
  finally show ?thesis by (simp add: powr_minus_divide)
qed

subsection \<open>The omnibus step\<close>

text \<open>Filtering keeps, in every row, the entries of the columns with a positive total.\<close>

lemma select_cols_nths: "select_cols keep row = nths row {j. j < length keep \<and> keep ! j}"
proof (induction row arbitrary: keep)
  case Nil
  then show ?case by (simp add: select_cols_def)
next
  case (Cons x xs)
  show ?case
  proof (cases keep)
    case Nil
    then show ?thesis by (simp add: select_cols_def)
  next
    case (Cons k ks)
    have "select_cols (k # ks) (x # xs) = (if k then [x] else []) @ select_cols ks xs"
      by (simp add: select_cols_def)
    moreover have "{j. Suc j \<in> {j. j < length (k # ks) \<and> (k # ks) ! j}} = {j. j < length ks \<and> ks ! j}"
      by auto
    ultimately show ?thesis
      using Cons.IH [of ks] Cons by (simp add: nths_Cons)
  qed
qed

lemma non_zero_cols_nth:
  "{j. j < length (non_zero_cols t) \<and> non_zero_cols t ! j}
     = {j. j < 5 \<and> 0 < sum_list (map (\<lambda>row. row ! j) t)}"
  by (auto simp: non_zero_cols_def column_sums_def)

lemma filtered_table_nths:
  "filtered_table t = map (\<lambda>row. nths row {j. j < 5 \<and> 0 < sum_list (map (\<lambda>row. row ! j) t)}) t"
  by (simp add: filtered_table_def select_cols_nths non_zero_cols_nth)

text \<open>
  In every result of the omnibus test the flag says whether the recorded p-value is
  below 0.05; for a placeholder both sides are false.
\<close>

lemma omnibus_test_sig:
  "omnibus_test chi2c t = Inr r \<Longrightarrow> significant r = float_lt (p_value r) (Fin 0.05)"
  by (auto simp: omnibus_test_def Let_def placeholder_def split: if_splits sum.splits)

lemma omnibus_test_cases:
  assumes "\<forall>e. chi2c (filtered_table t) = Inl e \<longrightarrow> e = ValueError"
  shows "\<exists>r. omnibus_test chi2c t = Inr r \<and> contingency_table r = t \<and>
          (if 0 < table_size (filtered_table t) \<and> 0 < table_sum (filtered_table t)
              \<and> (\<exists>res. chi2c (filtered_table t) = Inr res)
           then chi2c (filtered_table t) = Inr (chi2 r, p_value r, dof r)
                \<and> significant r = float_lt (p_value r) (Fin 0.05)
           else chi2 r = NaN \<and> p_value r = Fin 1 \<and> dof r = 0 \<and> \<not> significant r)"
proof (cases "0 < table_size (filtered_table t) \<and> 0 < table_sum (filtered_table t)")
  case False
  then show ?thesis by (auto simp: omnibus_test_def Let_def placeholder_def)
next
  case True
  show ?thesis
  proof (cases "chi2c (filtered_table t)")
    case (Inl e)
    with assms have "e = ValueError" by simp
    with True Inl show ?thesis by (simp add: omnibus_test_def Let_def placeholder_def)
  next
    case (Inr res)
    obtain c p d where "res = (c, p, d)" by (cases res)
    with True Inr show ?thesis by (simp add: omnibus_test_def Let_def)
  qed
qed

text \<open>
  Claim C2. For a question whose contingency table \<open>t\<close> is built, and a chi-squared
  test that raises nothing but \<open>ValueError\<close> on the filtered table: the filtered table
  is \<open>t\<close> without the columns whose total over the groups is zero; the omnibus step
  returns a result and no error; the result is the one of the test exactly when the
  filtered table is non-empty, its total is positive and the test does not fail; in every
  other case it is the placeholder with statistic NaN, p-value 1.0, zero degrees of
  freedom and the significance flag false.
\<close>

theorem omnibus_question_cases:
  assumes "build_contingency_table likert_data q = Inr t"
    and "\<forall>e. chi2c (filtered_table t) = Inl e \<longrightarrow> e = ValueError"
  shows "filtered_table t
           = map (\<lambda>row. nths row {j. j < 5 \<and> 0 < sum_list (map (\<lambda>row. row ! j) t)}) t
       \<and> (\<exists>r. omnibus_question chi2c likert_data q = Inr r \<and> contingency_table r = t \<and>
            (if 0 < table_size (filtered_table t) \<and> 0 < table_sum (filtered_table t)
                \<and> (\<exists>res. chi2c (filtered_table t) = Inr res)
             then chi2c (filtered_table t) = Inr (chi2 r, p_value r, dof r)
                  \<and> significant r = float_lt (p_value r) (Fin 0.05)
             else chi2 r = NaN \<and> p_value r = Fin 1 \<and> dof r = 0 \<and> \<not> significant r))"
  using omnibus_test_cases [of chi2c t, OF assms(2)] assms(1)
  by (simp add: omnibus_question_def filtered_table_nths [symmetric])

lemma table_example:
  "build_contingency_table
     [(''A'', [(''Easy to Use'', [1, 2])]), (''B'', [(''Easy to Use'', [7])]),
      (''C'', [(''Easy to Use'', [2])])] ''Easy to Use''
   = Inr [[1, 1, 0, 0, 0], [0, 0, 0, 0, 0], [0, 1, 0, 0, 0]]"
  by code_simp

theorem omnibus_question_cases_witness:
  "\<exists>r. omnibus_question (\<lambda>t. Inl ValueError)
          [(''A'', [(''Easy to Use'', [1, 2])]), (''B'', [(''Easy to Use'', [7])]),
           (''C'', [(''Easy to Use'', [2])])] ''Easy to Use'' = Inr r
       \<and> contingency_table r = [[1, 1, 0, 0, 0], [0, 0, 0, 0, 0], [0, 1, 0, 0, 0]]
       \<and> chi2 r = NaN \<and> p_value r = Fin 1 \<and> dof r = 0 \<and> \<not> significant r"
proof -
  have a: "\<forall>e. (\<lambda>t. Inl ValueError) (filtered_table [[1, 1, 0, 0, 0], [0, 0, 0, 0, 0], [0, 1, 0, 0, 0]])
             = (Inl e :: py_error + pyfloat \<times> pyfloat \<times> nat) \<longrightarrow> e = ValueError"
    by simp
  from omnibus_question_cases [OF table_example a, THEN conjunct2]
  show ?thesis by simp
qed

text \<open>
  On the Likert data that \<open>get_likert_data\<close> builds for the fixed table of questions,
  the whole omnibus run returns its results: no key is missing and a degenerate table
  gives a placeholder.
\<close>

lemma get_likert_data_shape:
  "get_likert_data df likert_questions =
     [(''A'', [(''Understand Tasks'', numeric_answers (answers_of df ''1763429742172'')),
               (''Understand How to Use'', numeric_answers (answers_of df ''1763429933708'')),
               (''Easy to Use'', numeric_answers (answers_of df ''1763429972190'')),
               (''Has Features Needed'', numeric_answers (answers_of df ''1763430192770'')),
               (''Superior to Existing Tools'', numeric_answers (answers_of df ''1763430096428''))]),
      (''B'', [(''Understand Tasks'', numeric_answers (answers_of df ''1763431473322'')),
               (''Understand How to Use'', numeric_answers (answers_of df ''1763431486831'')),
               (''Easy to Use'', numeric_answers (answers_of df ''1763431509699'')),
               (''Has Features Needed'', numeric_answers (answers_of df ''1763431525649'')),
               (''Superior to Existing Tools'', numeric_answers (answers_of df ''1763431567705''))]),
      (''C'', [(''Understand Tasks'', numeric_answers (answers_of df ''1763433215212'')),
               (''Understand How to Use'', numeric_answers (answers_of df ''1763433230680'')),
               (''Easy to Use'', numeric_answers (answers_of df ''1763433260707'')),
               (''Has Features Needed'', numeric_answers (answers_of df ''1763433293713'')),
               (''Superior to Existing Tools'', numeric_answers (answers_of df ''1763433312274''))])]"
  by (simp add: get_likert_data_def likert_questions_def)

lemma omnibus_test_total:
  "\<forall>t e. chi2c t = Inl e \<longrightarrow> e = ValueError \<Longrightarrow> \<exists>r. omnibus_test chi2c t = Inr r"
  using omnibus_test_cases [of chi2c t] by blast

lemma omnibus_loop_total:
  "\<forall>q\<in>set qs. \<exists>r. omnibus_question chi2c ld q = Inr r \<Longrightarrow>
   \<exists>res. omnibus_loop chi2c ld qs acc = Inr res"
  by (induction qs arbitrary: acc) auto

lemma build_table_likert:
  assumes "q \<in> set [''Understand Tasks'', ''Understand How to Use'', ''Easy to Use'',
                      ''Has Features Needed'', ''Superior to Existing Tools'']"
  shows "\<exists>t. build_contingency_table (get_likert_data df likert_questions) q = Inr t"
  using assms
  by (auto simp: get_likert_data_shape build_contingency_table_def likert_values_def
      dict_lookup_def)

lemma perform_chi_squared_omnibus_total:
  assumes "\<forall>t e. chi2c t = Inl e \<longrightarrow> e = ValueError"
  shows "\<exists>res. perform_chi_squared_omnibus chi2c (get_likert_data df likert_questions) = Inr res"
proof -
  define ld where "ld = get_likert_data df likert_questions"
  define labels where "labels = [''Understand Tasks'', ''Understand How to Use'', ''Easy to Use'',
                      ''Has Features Needed'', ''Superior to Existing Tools'']"
  have "\<exists>fq rest. ld = (''A'', fq) # rest \<and> dict_keys fq = labels"
    by (simp add: ld_def labels_def get_likert_data_shape)
  then have run: "perform_chi_squared_omnibus chi2c ld = omnibus_loop chi2c ld labels []"
    by (auto simp: perform_chi_squared_omnibus_def)
  have "\<exists>r. omnibus_question chi2c ld q = Inr r" if "q \<in> set labels" for q
  proof -
    from that obtain t where "build_contingency_table ld q = Inr t"
      unfolding ld_def labels_def using build_table_likert by blast
    with omnibus_test_total [OF assms, of t] show ?thesis
      by (simp add: omnibus_question_def)
  qed
  then have "\<exists>res. omnibus_loop chi2c ld labels [] = Inr res"
    by (intro omnibus_loop_total) blast
  with run show ?thesis by (simp add: ld_def)
qed

subsection \<open>Order of the groups\<close>






text \<open>
  The modelled test on the example of its documentation: the table
  \<open>[[10, 10, 20], [20, 20, 20]]\<close> has the statistic \<open>2.777...\<close> with \<open>2\<close> degrees of
  freedom.
\<close>

lemma chi2_contingency_example:
  "chi2_contingency sf [[10, 10, 20], [20, 20, 20]] = Inr (Fin (25 / 9), Fin (sf (25 / 9) 2), 2)"
  by (simp add: chi2_contingency_def table_size_def table_sum_def chi2_dof_def ncols_def
      col_total_def chi2_statistic_def row_stat_def cell_term_def expected_freq_def
      upt_rec Let_def numeral_2_eq_2)












subsection \<open>The pairwise step\<close>

lemma pairs_loop_keys:
  "pairs_loop ks ld q pairs [] = Inr prs \<Longrightarrow> dict_keys prs = [''A vs B'', ''A vs C'', ''B vs C'']"
  by (auto simp: pairs_def split: sum.splits)

lemma pair_test_bonferroni:
  "pair_test ks ld q p1 p2 = Inr r \<Longrightarrow> \<exists>s p. r = bonferroni s p"
  by (auto simp: pair_test_def split: sum.splits)

lemma pairs_loop_bonferroni:
  "pairs_loop ks ld q ps acc = Inr prs \<Longrightarrow> \<forall>(l, r)\<in>set acc. \<exists>s p. r = bonferroni s p \<Longrightarrow>
   \<forall>(l, r)\<in>set prs. \<exists>s p. r = bonferroni s p"
proof (induction ks ld q ps acc rule: pairs_loop.induct)
  case (1 ks ld q acc)
  then show ?case by simp
next
  case (2 ks ld q p1 p2 ps acc)
  from "2.prems"(1) obtain r where r: "pair_test ks ld q p1 p2 = Inr r"
    and rest: "pairs_loop ks ld q ps (dict_set acc (p1 @ '' vs '' @ p2) r) = Inr prs"
    by (auto split: sum.splits)
  from "2.prems"(2) pair_test_bonferroni [OF r]
  have "\<forall>(l, r)\<in>set (dict_set acc (p1 @ '' vs '' @ p2) r). \<exists>s p. r = bonferroni s p"
    by (rule dict_set_all)
  from "2.IH" [OF r rest this] show ?case .
qed

lemma pairwise_loop_keys:
  "pairwise_loop ks ld omni acc = Inr pw \<Longrightarrow>
   fst ` set pw = fst ` set acc \<union> {q. \<exists>r. (q, r) \<in> set omni \<and> significant r}"
proof (induction ks ld omni acc arbitrary: pw rule: pairwise_loop.induct)
  case (1 ks ld acc)
  then show ?case by simp
next
  case (2 ks ld q om rest acc)
  show ?case
  proof (cases "significant om")
    case False
    with "2.prems" have "pairwise_loop ks ld rest acc = Inr pw" by simp
    from "2.IH"(2) [OF False this] False show ?thesis by auto
  next
    case True
    with "2.prems" obtain prs where prs: "pairs_loop ks ld q pairs [] = Inr prs"
      and r: "pairwise_loop ks ld rest (dict_set acc q prs) = Inr pw"
      by (auto split: sum.splits)
    from "2.IH"(1) [OF True prs r] True show ?thesis by auto
  qed
qed

lemma pairwise_loop_entries:
  "pairwise_loop ks ld omni acc = Inr pw \<Longrightarrow>
   \<forall>(q, prs)\<in>set acc. pairs_loop ks ld q pairs [] = Inr prs \<Longrightarrow>
   \<forall>(q, prs)\<in>set pw. pairs_loop ks ld q pairs [] = Inr prs"
proof (induction ks ld omni acc arbitrary: pw rule: pairwise_loop.induct)
  case (1 ks ld acc)
  then show ?case by simp
next
  case (2 ks ld q om rest acc)
  show ?case
  proof (cases "significant om")
    case False
    with "2.prems" have "pairwise_loop ks ld rest acc = Inr pw" by simp
    from "2.IH"(2) [OF False this "2.prems"(2)] show ?thesis .
  next
    case True
    with "2.prems" obtain prs where prs: "pairs_loop ks ld q pairs [] = Inr prs"
      and r: "pairwise_loop ks ld rest (dict_set acc q prs) = Inr pw"
      by (auto split: sum.splits)
    from "2.prems"(2) prs
    have "\<forall>(q, prs)\<in>set (dict_set acc q prs). pairs_loop ks ld q pairs [] = Inr prs"
      by (rule dict_set_all)
    from "2.IH"(1) [OF True prs r this] show ?thesis .
  qed
qed

lemma omnibus_loop_sig:
  "omnibus_loop chi2c ld qs acc = Inr res \<Longrightarrow>
   \<forall>(q, r)\<in>set acc. significant r = float_lt (p_value r) (Fin 0.05) \<Longrightarrow>
   \<forall>(q, r)\<in>set res. significant r = float_lt (p_value r) (Fin 0.05)"
proof (induction chi2c ld qs acc rule: omnibus_loop.induct)
  case (1 chi2c ld acc)
  then show ?case by simp
next
  case (2 chi2c ld q qs acc)
  from "2.prems"(1) obtain r where r: "omnibus_question chi2c ld q = Inr r"
    and rest: "omnibus_loop chi2c ld qs (dict_set acc q r) = Inr res"
    by (auto split: sum.splits)
  from r have "significant r = float_lt (p_value r) (Fin 0.05)"
    by (auto simp: omnibus_question_def split: sum.splits dest: omnibus_test_sig)
  with "2.prems"(2)
  have "\<forall>(q, r)\<in>set (dict_set acc q r). significant r = float_lt (p_value r) (Fin 0.05)"
    by (rule dict_set_all)
  from "2.IH" [OF r rest this] show ?case .
qed

lemma omnibus_loop_distinct:
  "omnibus_loop chi2c ld qs acc = Inr res \<Longrightarrow> distinct (dict_keys acc) \<Longrightarrow>
   distinct (dict_keys res)"
proof (induction chi2c ld qs acc rule: omnibus_loop.induct)
  case (1 chi2c ld acc)
  then show ?case by simp
next
  case (2 chi2c ld q qs acc)
  from "2.prems"(1) obtain r where r: "omnibus_question chi2c ld q = Inr r"
    and rest: "omnibus_loop chi2c ld qs (dict_set acc q r) = Inr res"
    by (auto split: sum.splits)
  from "2.IH" [OF r rest distinct_dict_set [OF "2.prems"(2)]] show ?case .
qed

text \<open>
  Claim C1. When the omnibus run and the pairwise run both return, a question has an
  entry in the pairwise results if and only if its omnibus result has the significance
  flag set; that flag says whether the omnibus p-value is below 0.05, which is false for
  a placeholder; and an entry holds the three comparisons A vs B, A vs C and B vs C.
\<close>

theorem pairwise_iff_significant:
  assumes "perform_chi_squared_omnibus chi2c ld = Inr omni"
    and "perform_pairwise_ks_tests ks ld omni = Inr pw"
  shows "(q \<in> set (dict_keys pw) \<longleftrightarrow> (\<exists>r. map_of omni q = Some r \<and> significant r))
       \<and> (\<forall>r. map_of omni q = Some r \<longrightarrow> significant r = float_lt (p_value r) (Fin 0.05))
       \<and> (\<forall>prs. (q, prs) \<in> set pw \<longrightarrow> dict_keys prs = [''A vs B'', ''A vs C'', ''B vs C''])"
proof -
  from assms(1) obtain qs where loop: "omnibus_loop chi2c ld qs [] = Inr omni"
    by (auto simp: perform_chi_squared_omnibus_def split: list.splits)
  from omnibus_loop_distinct [OF loop] have d: "distinct (dict_keys omni)" by simp
  then have mem: "(q, r) \<in> set omni \<longleftrightarrow> map_of omni q = Some r" for r
    by simp
  from omnibus_loop_sig [OF loop]
  have sig: "\<forall>(q, r)\<in>set omni. significant r = float_lt (p_value r) (Fin 0.05)" by simp
  from assms(2) have pl: "pairwise_loop ks ld omni [] = Inr pw"
    by (simp add: perform_pairwise_ks_tests_def)
  from pairwise_loop_keys [OF pl]
  have "q \<in> set (dict_keys pw) \<longleftrightarrow> (\<exists>r. (q, r) \<in> set omni \<and> significant r)"
    by auto
  then have 1: "q \<in> set (dict_keys pw) \<longleftrightarrow> (\<exists>r. map_of omni q = Some r \<and> significant r)"
    by (simp only: mem)
  from sig have 2: "\<forall>r. map_of omni q = Some r \<longrightarrow> significant r = float_lt (p_value r) (Fin 0.05)"
    by (auto simp: mem [symmetric])
  from pairwise_loop_entries [OF pl]
  have "\<forall>(q, prs)\<in>set pw. pairs_loop ks ld q pairs [] = Inr prs" by simp
  then have 3: "\<forall>prs. (q, prs) \<in> set pw \<longrightarrow> dict_keys prs = [''A vs B'', ''A vs C'', ''B vs C'']"
    by (auto dest: pairs_loop_keys)
  from 1 2 3 show ?thesis by blast
qed

lemma omnibus_example:
  "perform_chi_squared_omnibus (\<lambda>t. Inr (Fin 12, Fin (1 / 100), 4))
     [(''A'', [(''Easy to Use'', [1, 1, 2]), (''Has Features Needed'', [])]),
      (''B'', [(''Easy to Use'', [5, 5, 4]), (''Has Features Needed'', [])]),
      (''C'', [(''Easy to Use'', [3, 3, 3]), (''Has Features Needed'', [])])]
   = Inr [(''Easy to Use'',
           \<lparr>chi2 = Fin 12, p_value = Fin (1 / 100), dof = 4, significant = True,
            contingency_table = [[2, 1, 0, 0, 0], [0, 0, 0, 1, 2], [0, 0, 3, 0, 0]],
            res_note = None\<rparr>),
          (''Has Features Needed'',
           \<lparr>chi2 = NaN, p_value = Fin 1, dof = 0, significant = False,
            contingency_table = [[0, 0, 0, 0, 0], [0, 0, 0, 0, 0], [0, 0, 0, 0, 0]],
            res_note = Some ''No variation in data''\<rparr>)]"
  by (simp add: perform_chi_squared_omnibus_def omnibus_question_def
      build_contingency_table_def likert_values_def dict_lookup_def contingency_row_def
      omnibus_test_def filtered_table_def non_zero_cols_def column_sums_def select_cols_def
      table_size_def table_sum_def placeholder_def Let_def upt_rec)

lemma pairwise_example:
  "perform_pairwise_ks_tests (\<lambda>a b. Inr (Fin 1, Fin (1 / 64)))
     [(''A'', [(''Easy to Use'', [1, 1, 2]), (''Has Features Needed'', [])]),
      (''B'', [(''Easy to Use'', [5, 5, 4]), (''Has Features Needed'', [])]),
      (''C'', [(''Easy to Use'', [3, 3, 3]), (''Has Features Needed'', [])])]
     [(''Easy to Use'',
           \<lparr>chi2 = Fin 12, p_value = Fin (1 / 100), dof = 4, significant = True,
            contingency_table = [[2, 1, 0, 0, 0], [0, 0, 0, 1, 2], [0, 0, 3, 0, 0]],
            res_note = None\<rparr>),
          (''Has Features Needed'',
           \<lparr>chi2 = NaN, p_value = Fin 1, dof = 0, significant = False,
            contingency_table = [[0, 0, 0, 0, 0], [0, 0, 0, 0, 0], [0, 0, 0, 0, 0]],
            res_note = Some ''No variation in data''\<rparr>)]
   = Inr [(''Easy to Use'',
           [(''A vs B'', \<lparr>ks_statistic = Fin 1, pw_p_value = Fin (1 / 64),
                          adjusted_p_value = Fin (3 / 64), pw_significant = True\<rparr>),
            (''A vs C'', \<lparr>ks_statistic = Fin 1, pw_p_value = Fin (1 / 64),
                          adjusted_p_value = Fin (3 / 64), pw_significant = True\<rparr>),
            (''B vs C'', \<lparr>ks_statistic = Fin 1, pw_p_value = Fin (1 / 64),
                          adjusted_p_value = Fin (3 / 64), pw_significant = True\<rparr>)])]"
  using fl64_3_64
  by (simp add: perform_pairwise_ks_tests_def pairs_def pair_test_def likert_values_def
      dict_lookup_def bonferroni_def py_min_def Let_def)

theorem pairwise_iff_significant_witness:
  "\<exists>omni pw.
     perform_chi_squared_omnibus (\<lambda>t. Inr (Fin 12, Fin (1 / 100), 4))
       [(''A'', [(''Easy to Use'', [1, 1, 2]), (''Has Features Needed'', [])]),
        (''B'', [(''Easy to Use'', [5, 5, 4]), (''Has Features Needed'', [])]),
        (''C'', [(''Easy to Use'', [3, 3, 3]), (''Has Features Needed'', [])])] = Inr omni
     \<and> perform_pairwise_ks_tests (\<lambda>a b. Inr (Fin 1, Fin (1 / 64)))
       [(''A'', [(''Easy to Use'', [1, 1, 2]), (''Has Features Needed'', [])]),
        (''B'', [(''Easy to Use'', [5, 5, 4]), (''Has Features Needed'', [])]),
        (''C'', [(''Easy to Use'', [3, 3, 3]), (''Has Features Needed'', [])])] omni = Inr pw
     \<and> ''Easy to Use'' \<in> set (dict_keys pw)
     \<and> ''Has Features Needed'' \<notin> set (dict_keys pw)"
proof -
  note t = pairwise_iff_significant [OF omnibus_example pairwise_example]
  have 1: "''Easy to Use'' \<in> set (dict_keys
     [(''Easy to Use'',
           [(''A vs B'', \<lparr>ks_statistic = Fin 1, pw_p_value = Fin (1 / 64),
                          adjusted_p_value = Fin (3 / 64), pw_significant = True\<rparr>),
            (''A vs C'', \<lparr>ks_statistic = Fin 1, pw_p_value = Fin (1 / 64),
                          adjusted_p_value = Fin (3 / 64), pw_significant = True\<rparr>),
            (''B vs C'', \<lparr>ks_statistic = Fin 1, pw_p_value = Fin (1 / 64),
                          adjusted_p_value = Fin (3 / 64), pw_significant = True\<rparr>)])])"
    unfolding t [of "''Easy to Use''", THEN conjunct1] by simp
  have 2: "''Has Features Needed'' \<notin> set (dict_keys
     [(''Easy to Use'',
           [(''A vs B'', \<lparr>ks_statistic = Fin 1, pw_p_value = Fin (1 / 64),
                          adjusted_p_value = Fin (3 / 64), pw_significant = True\<rparr>),
            (''A vs C'', \<lparr>ks_statistic = Fin 1, pw_p_value = Fin (1 / 64),
                          adjusted_p_value = Fin (3 / 64), pw_significant = True\<rparr>),
            (''B vs C'', \<lparr>ks_statistic = Fin 1, pw_p_value = Fin (1 / 64),
                          adjusted_p_value = Fin (3 / 64), pw_significant = True\<rparr>)])])"
    unfolding t [of "''Has Features Needed''", THEN conjunct1] by simp
  show ?thesis
    by (rule exI, rule exI, rule conjI, rule omnibus_example, rule conjI,
        rule pairwise_example, rule conjI, rule 1, rule 2)
qed

lemma bonferroni_props:
  "pw_p_value (bonferroni s (Fin p)) = Fin p"
  "adjusted_p_value (bonferroni s (Fin p)) = Fin (min (fl64 (p * 3)) 1)"
  "pw_significant (bonferroni s (Fin p)) \<longleftrightarrow> fl64 (p * 3) < 0.05"
  by (simp_all add: bonferroni_def py_min_def Let_def min_def)

text \<open>
  At the double nearest to \<open>1/60\<close> the product with 3 is a tie and rounds up to the
  double \<open>0.05\<close>, which is above \<open>1/20\<close>: the adjusted p-value is that double and the
  comparison is not significant.
\<close>

lemma bonferroni_tie_example:
  "bonferroni s (Fin (4803839602528529 / 2 ^ 58))
     = \<lparr>ks_statistic = s, pw_p_value = Fin (4803839602528529 / 2 ^ 58),
        adjusted_p_value = Fin (3602879701896397 / 2 ^ 56), pw_significant = False\<rparr>"
  using fl64_tie by (simp add: bonferroni_def py_min_def Let_def)

text \<open>
  Claim C3. For every pairwise result whose raw p-value \<open>p\<close> is a double between 0 and
  1, the recorded adjusted p-value is the smaller of \<open>1.0\<close> and the product \<open>p * 3\<close> as
  the script computes it, in double arithmetic; it is at least the raw p-value and at
  most 1; and the significance flag is set exactly when the adjusted p-value is below
  0.05.
\<close>

theorem bonferroni_adjustment:
  assumes "perform_pairwise_ks_tests ks ld omni = Inr pw"
    and "(q, prs) \<in> set pw" and "(lbl, r) \<in> set prs"
    and "pw_p_value r = Fin p" and "fl64 p = p" and "0 \<le> p" and "p \<le> 1"
  shows "adjusted_p_value r = Fin (min (fl64 (p * 3)) 1)
       \<and> float_le (pw_p_value r) (adjusted_p_value r)
       \<and> float_le (adjusted_p_value r) (Fin 1)
       \<and> (pw_significant r \<longleftrightarrow> float_lt (adjusted_p_value r) (Fin 0.05))"
proof -
  from assms(1) have pl: "pairwise_loop ks ld omni [] = Inr pw"
    by (simp add: perform_pairwise_ks_tests_def)
  from pairwise_loop_entries [OF pl] assms(2)
  have "pairs_loop ks ld q pairs [] = Inr prs" by auto
  from pairs_loop_bonferroni [OF this] assms(3)
  obtain s p' where r: "r = bonferroni s p'" by auto
  with assms(4) have "p' = Fin p" by (simp add: bonferroni_def Let_def)
  with r have r': "r = bonferroni s (Fin p)" by simp
  have "p \<le> fl64 (p * 3)"
  proof (cases "p = 0")
    case True
    then show ?thesis by (simp add: fl64_def)
  next
    case False
    with assms(6) have "0 < p" "p \<le> p * 3" by simp_all
    from fl64_mono_pos [OF this] assms(5) show ?thesis by simp
  qed
  with assms(7) show ?thesis
    unfolding r' by (simp add: bonferroni_props min_def)
qed

theorem bonferroni_adjustment_witness:
  "\<exists>pw prs r.
     perform_pairwise_ks_tests (\<lambda>a b. Inr (Fin 1, Fin (1 / 64)))
       [(''A'', [(''Easy to Use'', [1, 1, 2]), (''Has Features Needed'', [])]),
        (''B'', [(''Easy to Use'', [5, 5, 4]), (''Has Features Needed'', [])]),
        (''C'', [(''Easy to Use'', [3, 3, 3]), (''Has Features Needed'', [])])]
       [(''Easy to Use'',
           \<lparr>chi2 = Fin 12, p_value = Fin (1 / 100), dof = 4, significant = True,
            contingency_table = [[2, 1, 0, 0, 0], [0, 0, 0, 1, 2], [0, 0, 3, 0, 0]],
            res_note = None\<rparr>),
          (''Has Features Needed'',
           \<lparr>chi2 = NaN, p_value = Fin 1, dof = 0, significant = False,
            contingency_table = [[0, 0, 0, 0, 0], [0, 0, 0, 0, 0], [0, 0, 0, 0, 0]],
            res_note = Some ''No variation in data''\<rparr>)] = Inr pw
     \<and> (''Easy to Use'', prs) \<in> set pw \<and> (''A vs C'', r) \<in> set prs
     \<and> pw_p_value r = Fin (1 / 64) \<and> adjusted_p_value r = Fin (3 / 64)
     \<and> float_le (pw_p_value r) (adjusted_p_value r)
     \<and> float_le (adjusted_p_value r) (Fin 1)
     \<and> pw_significant r"
proof -
  let ?r = "\<lparr>ks_statistic = Fin 1, pw_p_value = Fin (1 / 64),
      adjusted_p_value = Fin (3 / 64), pw_significant = True\<rparr>"
  let ?prs = "[(''A vs B'', ?r), (''A vs C'', ?r), (''B vs C'', ?r)]"
  have a: "(''Easy to Use'', ?prs) \<in> set [(''Easy to Use'', ?prs)]" by simp
  have b: "(''A vs C'', ?r) \<in> set ?prs" by simp
  have c: "pw_p_value ?r = Fin (1 / 64)" by simp
  have d: "(0::real) \<le> 1 / 64" "(1::real) / 64 \<le> 1" by simp_all
  from bonferroni_adjustment [OF pairwise_example a b c fl64_1_64 d]
  have e: "float_le (pw_p_value ?r) (adjusted_p_value ?r)
      \<and> float_le (adjusted_p_value ?r) (Fin 1)
      \<and> (pw_significant ?r \<longleftrightarrow> float_lt (adjusted_p_value ?r) (Fin 0.05))"
    by (rule conjunct2)
  show ?thesis
    by (rule exI [of _ "[(''Easy to Use'', ?prs)]"], rule exI [of _ ?prs], rule exI [of _ ?r],
        rule conjI, rule pairwise_example, rule conjI, rule a, rule conjI, rule b,
        rule conjI, rule c) (use e in simp)
qed

subsection \<open>Ranking questions\<close>

lemma total_mentions:
  "sum_list (dict_values (prototype_counts as)) =
     (\<Sum>a\<leftarrow>as. (if str_in ''Prototype A'' a then 1 else 0)
              + (if str_in ''Prototype B'' a then 1 else 0)
              + (if str_in ''Prototype C'' a then 1 else 0))"
  by (induction as) (simp_all add: prototype_counts_def count_mentions_def)

text \<open>
  Claim C10. In the result for a ranking question the count of a prototype is the number
  of answers that contain its exact name as a substring, and the reported total is the sum
  of the three counts. Hence every answer adds to the total the number of prototype
  names it contains: more than one for an answer naming several prototypes, nothing for
  an answer naming none, so the total can exceed the number of respondents.
\<close>

theorem ranking_counts_by_substring:
  assumes "ranking_question chisq as = Inr r"
  shows "counts r =
           [(''Prototype A'', length (filter (str_in ''Prototype A'') as)),
            (''Prototype B'', length (filter (str_in ''Prototype B'') as)),
            (''Prototype C'', length (filter (str_in ''Prototype C'') as))]
       \<and> rk_total_responses r = sum_list (dict_values (counts r))
       \<and> rk_total_responses r =
           (\<Sum>a\<leftarrow>as. (if str_in ''Prototype A'' a then 1 else 0)
                    + (if str_in ''Prototype B'' a then 1 else 0)
                    + (if str_in ''Prototype C'' a then 1 else 0))"
proof -
  from assms have c: "counts r = prototype_counts as"
    and t: "rk_total_responses r = sum_list (dict_values (prototype_counts as))"
    by (auto simp: ranking_question_def Let_def split: sum.splits)
  from t have "rk_total_responses r =
           (\<Sum>a\<leftarrow>as. (if str_in ''Prototype A'' a then 1 else 0)
                    + (if str_in ''Prototype B'' a then 1 else 0)
                    + (if str_in ''Prototype C'' a then 1 else 0))"
    by (simp only: total_mentions)
  with c t show ?thesis
    by (simp add: prototype_counts_def count_mentions_def)
qed

lemma ranking_example:
  "ranking_question (\<lambda>obs exp. Inr (Fin 0, Fin 1))
     [''Prototype A, then Prototype B, then Prototype C'', ''no preference'']
   = Inr \<lparr>counts = [(''Prototype A'', 1), (''Prototype B'', 1), (''Prototype C'', 1)],
          rk_chi2 = Fin 0, rk_p_value = Fin 1, rk_significant = False,
          rk_total_responses = 3\<rparr>"
  by (simp add: ranking_question_def prototype_counts_def count_mentions_def Let_def
      sublist_code prefix_code)

theorem ranking_counts_by_substring_witness:
  "\<exists>r. ranking_question (\<lambda>obs exp. Inr (Fin 0, Fin 1))
          [''Prototype A, then Prototype B, then Prototype C'', ''no preference''] = Inr r
       \<and> rk_total_responses r = sum_list (dict_values (counts r))
       \<and> rk_total_responses r = 3
       \<and> length [''Prototype A, then Prototype B, then Prototype C'', ''no preference'']
           < rk_total_responses r"
proof -
  note t = ranking_counts_by_substring [OF ranking_example, THEN conjunct2, THEN conjunct1]
  show ?thesis
    by (rule exI, rule conjI, rule ranking_example, rule conjI, rule t) simp
qed

subsection \<open>Descriptive statistics of Likert answers\<close>

lemma sum_list_bounds:
  fixes xs :: "int list"
  assumes "\<forall>x\<in>set xs. lo \<le> x \<and> x \<le> hi"
  shows "lo * int (length xs) \<le> sum_list xs \<and> sum_list xs \<le> hi * int (length xs)"
  using assms by (induction xs) (auto simp: algebra_simps)

lemma np_mean_bounds:
  assumes "values \<noteq> []" and "\<forall>x\<in>set values. 1 \<le> x \<and> x \<le> 5"
  shows "float_le (Fin 1) (np_mean values) \<and> float_le (np_mean values) (Fin 5)"
proof -
  let ?n = "length values"
  from assms(1) have n: "0 < real ?n" by simp
  from sum_list_bounds [OF assms(2)]
  have "int ?n \<le> sum_list values" "sum_list values \<le> 5 * int ?n" by simp_all
  then have "real ?n \<le> real_of_int (sum_list values)"
    "real_of_int (sum_list values) \<le> 5 * real ?n"
    by linarith+
  with n have "1 \<le> real_of_int (sum_list values) / real ?n"
    "real_of_int (sum_list values) / real ?n \<le> 5"
    by (simp_all add: field_simps)
  with assms(1) show ?thesis by (simp add: np_mean_def)
qed

lemma sum_sq_dev_nonneg: "0 \<le> sum_sq_dev values"
  unfolding sum_sq_dev_def Let_def
  by (rule sum_list_nonneg) auto

lemma question_stats_total:
  "values \<noteq> [] \<Longrightarrow> \<exists>s. question_stats values = Inr s
      \<and> st_mean s = np_mean values \<and> st_std s = np_std_ddof1 values \<and> st_n s = length values"
  by (cases "values") (simp_all add: question_stats_def np_min_def np_max_def)

text \<open>
  Claim C6, as amended. For a non-empty list of parsed Likert answers, each between 1
  and 5, the statistics are computed, and the mean lies between 1 and 5. With at least
  two answers the sample standard deviation is non-negative; with a single answer it is
  NaN.
\<close>

theorem likert_stats_bounds:
  assumes "numeric_answers answers = values" and "values \<noteq> []"
    and "\<forall>x\<in>set values. 1 \<le> x \<and> x \<le> 5"
  shows "\<exists>s. question_stats values = Inr s
           \<and> float_le (Fin 1) (st_mean s) \<and> float_le (st_mean s) (Fin 5)
           \<and> (if 2 \<le> length values then float_le (Fin 0) (st_std s) else st_std s = NaN)"
proof -
  from question_stats_total [OF assms(2)] obtain s where s: "question_stats values = Inr s"
    "st_mean s = np_mean values" "st_std s = np_std_ddof1 values" by blast
  have "float_le (Fin 0) (np_std_ddof1 values)" if "2 \<le> length values"
    using that sum_sq_dev_nonneg [of "values"] by (simp add: np_std_ddof1_def)
  moreover have "np_std_ddof1 values = NaN" if "\<not> 2 \<le> length values"
    using that by (simp add: np_std_ddof1_def)
  ultimately show ?thesis
    using s np_mean_bounds [OF assms(2,3)] by auto
qed

theorem likert_stats_bounds_witness:
  "\<exists>s. question_stats [4, 5] = Inr s
       \<and> float_le (Fin 1) (st_mean s) \<and> float_le (st_mean s) (Fin 5)
       \<and> float_le (Fin 0) (st_std s)"
proof -
  have a: "numeric_answers [''4'', ''n/a'', ''5''] = [4, 5]" by code_simp
  have b: "[4, 5] \<noteq> ([] :: int list)" by simp
  have c: "\<forall>x\<in>set [4, 5 :: int]. 1 \<le> x \<and> x \<le> 5" by simp
  from likert_stats_bounds [OF a b c] show ?thesis by simp
qed

text \<open>
  Claim C6 as stated covers a single answer. The one answer \<open>3\<close> parses to the list
  \<open>[3]\<close>, whose sample standard deviation is NaN, and NaN is not at least zero.
\<close>

theorem single_answer_std_counterexample:
  "numeric_answers [''3''] = [3]
   \<and> question_stats [3] =
       Inr \<lparr>st_mean = Fin 3, st_median = Fin 3, st_std = NaN, st_min = 3, st_max = 3, st_n = 1\<rparr>
   \<and> \<not> float_le (Fin 0) NaN"
  by (simp add: numeric_answers_def isdigit_def is_digit_char_def int_of_digits_def
      question_stats_def np_min_def np_max_def np_mean_def np_median_def np_std_ddof1_def)

end
